theory Spec2Isabelle
  imports Complex_Main "HOL-Library.Multiset"
begin

section \<open>Data model (types.ts)\<close>

text \<open>
  Numbers of the source are ECMAScript doubles; they are modelled as mathematical reals, so
  every statement below is an identity of real arithmetic (NaN, the infinities and rounding
  of doubles are outside the model). \<open>zIndex\<close> and \<open>nextId\<close> only ever receive
  integral values in the source and are modelled as \<open>int\<close> and \<open>nat\<close>.

  Field names follow \<open>SpriteObject\<close>; \<open>id\<close>, \<open>x\<close> and \<open>y\<close> are
  written \<open>spriteId\<close>, \<open>posX\<close>, \<open>posY\<close> because the short names are taken in HOL.
\<close>

record sprite =
  spriteId :: string
  emoji :: string
  posX :: real
  posY :: real
  rotation :: real
  scaleX :: real
  scaleY :: real
  zIndex :: int

record editor_state =
  sprites :: "sprite list"
  selectedId :: "string option"
  nextId :: nat
  showOrigin :: bool
  axesOnTop :: bool
  borderOnTop :: bool
  customFont :: string

record point =
  ptX :: real
  ptY :: real

record bounds =
  boundsX :: real
  boundsY :: real
  width :: real
  height :: real
  penX :: real
  penY :: real

text \<open>
  \<open>Partial<SpriteObject>\<close>: every field may be absent. \<open>Object.assign(sprite, updates)\<close>
  overwrites exactly the fields that are present.
\<close>

record sprite_updates =
  updId :: "string option"
  updEmoji :: "string option"
  updX :: "real option"
  updY :: "real option"
  updRotation :: "real option"
  updScaleX :: "real option"
  updScaleY :: "real option"
  updZIndex :: "int option"

definition noUpdates :: sprite_updates where
  "noUpdates = \<lparr>updId = None, updEmoji = None, updX = None, updY = None, updRotation = None,
     updScaleX = None, updScaleY = None, updZIndex = None\<rparr>"

definition orElse :: "'a option \<Rightarrow> 'a \<Rightarrow> 'a" where
  "orElse v d = (case v of None \<Rightarrow> d | Some w \<Rightarrow> w)"

definition objectAssign :: "sprite \<Rightarrow> sprite_updates \<Rightarrow> sprite" where
  "objectAssign s u =
     \<lparr>spriteId = orElse (updId u) (spriteId s),
      emoji = orElse (updEmoji u) (emoji s),
      posX = orElse (updX u) (posX s),
      posY = orElse (updY u) (posY s),
      rotation = orElse (updRotation u) (rotation s),
      scaleX = orElse (updScaleX u) (scaleX s),
      scaleY = orElse (updScaleY u) (scaleY s),
      zIndex = orElse (updZIndex u) (zIndex s)\<rparr>"

section \<open>Transform math and hit testing (canvas.ts, CanvasRenderer)\<close>

text \<open>
  \<open>ctx.measureText\<close> belongs to the rendering surface. It is a parameter of the model:
  a function from the font family and the text to the four ink extents.
\<close>

record text_metrics =
  actualBoundingBoxLeft :: real
  actualBoundingBoxRight :: real
  actualBoundingBoxAscent :: real
  actualBoundingBoxDescent :: real

type_synonym measure_text = "string \<Rightarrow> string \<Rightarrow> text_metrics"

definition getSpriteBounds :: "measure_text \<Rightarrow> sprite \<Rightarrow> string \<Rightarrow> bounds" where
  "getSpriteBounds measureText s font =
     (let metrics = measureText font (emoji s);
          left = actualBoundingBoxLeft metrics;
          right = actualBoundingBoxRight metrics;
          ascent = actualBoundingBoxAscent metrics;
          descent = actualBoundingBoxDescent metrics;
          baseWidth = left + right;
          baseHeight = ascent + descent;
          w = baseWidth * scaleX s;
          h = baseHeight * scaleY s
      in \<lparr>boundsX = posX s - w / 2, boundsY = posY s - h / 2, width = w, height = h,
          penX = - baseWidth / 2 + left, penY = ascent - baseHeight / 2\<rparr>)"

definition rotatePoint :: "real \<Rightarrow> real \<Rightarrow> real \<Rightarrow> point" where
  "rotatePoint px py rot =
     (let rad = (rot * pi) / 180; c = cos rad; s = sin rad
      in \<lparr>ptX = px * c - py * s, ptY = px * s + py * c\<rparr>)"

definition isPointInSprite :: "measure_text \<Rightarrow> sprite \<Rightarrow> real \<Rightarrow> real \<Rightarrow> string \<Rightarrow> bool" where
  "isPointInSprite measureText s worldX worldY font =
     (let b = getSpriteBounds measureText s font;
          localX = worldX - posX s;
          localY = worldY - posY s;
          rad = (- rotation s * pi) / 180;
          c = cos rad;
          sn = sin rad;
          rotatedX = localX * c - localY * sn;
          rotatedY = localX * sn + localY * c
      in rotatedX \<ge> - width b / 2 \<and> rotatedX \<le> width b / 2 \<and>
         rotatedY \<ge> - height b / 2 \<and> rotatedY \<le> height b / 2)"

text \<open>
  \<open>[...sprites].sort((a, b) => b.zIndex - a.zIndex)\<close>: the platform sort is stable, and so
  is \<open>sort_key\<close>; descending order is the ascending order of the negated key. The loop
  returns the id of the first sprite that contains the point, \<open>null\<close> (here \<open>None\<close>) when
  there is none.
\<close>

definition hitTest :: "measure_text \<Rightarrow> sprite list \<Rightarrow> real \<Rightarrow> real \<Rightarrow> string \<Rightarrow> string option" where
  "hitTest measureText sps worldX worldY font =
     (let sorted = sort_key (\<lambda>s. - zIndex s) sps
      in case find (\<lambda>s. isPointInSprite measureText s worldX worldY font) sorted of
           None \<Rightarrow> None
         | Some s \<Rightarrow> Some (spriteId s))"

text \<open>
  The paint transform of \<open>drawSprite\<close>: \<open>ctx.translate(x, y); ctx.rotate(rotation);
  ctx.scale(scaleX, scaleY)\<close>. On the canvas a local point is first scaled, then rotated
  (as \<open>rotatePoint\<close> does), then translated by the sprite position; the result is given
  in world coordinates (screen coordinates minus the canvas centre).
\<close>

definition paintTransform :: "sprite \<Rightarrow> point \<Rightarrow> point" where
  "paintTransform s p =
     (let rotated = rotatePoint (ptX p * scaleX s) (ptY p * scaleY s) (rotation s)
      in \<lparr>ptX = posX s + ptX rotated, ptY = posY s + ptY rotated\<rparr>)"

section \<open>Local coordinates (gizmo.ts)\<close>

text \<open>
  \<open>worldToLocalWithScale\<close> divides by the scale factors. With a zero factor the source
  produces an infinity or NaN; the model returns \<open>None\<close> there instead of HOL's
  \<open>x / 0 = 0\<close>.
\<close>

definition worldToLocalWithScale ::
  "real \<Rightarrow> real \<Rightarrow> real \<Rightarrow> real \<Rightarrow> real \<Rightarrow> real \<Rightarrow> real \<Rightarrow> point option" where
  "worldToLocalWithScale spriteX spriteY rot sclX sclY worldX worldY =
     (let localX = worldX - spriteX;
          localY = worldY - spriteY;
          rad = (- rot * pi) / 180;
          c = cos rad;
          sn = sin rad;
          rotatedX = localX * c - localY * sn;
          rotatedY = localX * sn + localY * c
      in if sclX = 0 \<or> sclY = 0 then None
         else Some \<lparr>ptX = rotatedX / sclX, ptY = rotatedY / sclY\<rparr>)"

definition worldToLocal :: "sprite \<Rightarrow> real \<Rightarrow> real \<Rightarrow> point option" where
  "worldToLocal s worldX worldY =
     worldToLocalWithScale (posX s) (posY s) (rotation s) (scaleX s) (scaleY s) worldX worldY"

section \<open>JavaScript values and the platform's JSON functions\<close>

text \<open>
  Values that \<open>JSON.parse\<close> returns, and \<open>undefined\<close>, which reading an absent
  property gives. An object is the list of its own properties in insertion order (keys
  distinct).
\<close>

datatype jsval =
  JUndefined
| JNull
| JBool bool
| JNum real
| JStr string
| JArr "jsval list"
| JObj "(string \<times> jsval) list"

text \<open>
  \<open>JSON.parse\<close> and \<open>JSON.stringify\<close> are the platform's and are parameters of the model.
  \<open>parseJSON\<close> is \<open>None\<close> where \<open>JSON.parse\<close> throws. \<open>stringifyState\<close> is
  \<open>JSON.stringify(this.state)\<close>; \<open>parseState\<close> is \<open>JSON.parse\<close> of a snapshot, read as
  an \<open>EditorState\<close> (the history only parses text that it stored itself).
\<close>

record json_api =
  parseJSON :: "string \<Rightarrow> jsval option"
  stringifyJSON :: "jsval \<Rightarrow> string"
  stringifyState :: "editor_state \<Rightarrow> string"
  parseState :: "string \<Rightarrow> editor_state"

fun truthy :: "jsval \<Rightarrow> bool" where
  "truthy JUndefined = False"
| "truthy JNull = False"
| "truthy (JBool b) = b"
| "truthy (JNum r) = (r \<noteq> 0)"
| "truthy (JStr s) = (s \<noteq> [])"
| "truthy (JArr _) = True"
| "truthy (JObj _) = True"

definition jsOr :: "jsval \<Rightarrow> jsval \<Rightarrow> jsval" where
  "jsOr a b = (if truthy a then a else b)"

text \<open>
  Reading a property named by one of the keys of the wire format. Primitives and arrays
  have no such property and give \<open>undefined\<close>; on \<open>null\<close> the source throws a
  \<open>TypeError\<close>, which the callers below test for before they read.
\<close>

fun getProp :: "jsval \<Rightarrow> string \<Rightarrow> jsval" where
  "getProp (JObj kvs) k = (case map_of kvs k of None \<Rightarrow> JUndefined | Some v \<Rightarrow> v)"
| "getProp _ k = JUndefined"

fun isArray :: "jsval \<Rightarrow> bool" where
  "isArray (JArr _) = True"
| "isArray _ = False"

text \<open>\<open>Object.keys\<close>: the names of the own properties of an object.\<close>

definition ownKeys :: "jsval \<Rightarrow> string list" where
  "ownKeys v = (case v of JObj kvs \<Rightarrow> map fst kvs | _ \<Rightarrow> [])"

text \<open>\<open>Math.round\<close>: the nearest integer, a tie going up.\<close>

definition mathRound :: "real \<Rightarrow> real" where
  "mathRound r = of_int \<lfloor>r + 1 / 2\<rfloor>"

text \<open>The decimal digits of a number, as a template literal prints \<open>nextId\<close>.\<close>

fun showNat :: "nat \<Rightarrow> string" where
  "showNat n =
     (if n < 10 then [''0123456789'' ! n]
      else showNat (n div 10) @ [''0123456789'' ! (n mod 10)])"

declare showNat.simps [simp del]

section \<open>The state manager (state.ts, StateManager)\<close>

text \<open>
  The manager owns the state and the two stacks of snapshots (the top of a stack is the
  last element, as \<open>push\<close> and \<open>pop\<close> have it). \<open>notifications\<close> counts the calls of
  \<open>notifyListeners\<close>; \<open>localStorage\<close> is the item stored under the editor's key (a write
  that fails is caught by the source and changes nothing else).

  The listeners are callbacks registered from outside the manager. Every mutator calls
  \<open>notifyListeners\<close> as its last step, so a listener that throws leaves the manager as the
  mutator has made it. Two functions catch what a listener throws: \<open>loadFromLocalStorage\<close>,
  which the application calls before it registers its listener, and \<open>importJSON\<close>, whose
  result then depends on it (\<open>importResult\<close> below).
\<close>

record manager =
  state :: editor_state
  undoStack :: "string list"
  redoStack :: "string list"
  notifications :: nat
  localStorage :: "string option"

definition newStateManager :: "string option \<Rightarrow> manager" where
  "newStateManager stored =
     \<lparr>state = \<lparr>sprites = [], selectedId = None, nextId = 1, showOrigin = True,
         axesOnTop = False, borderOnTop = False,
         customFont = ''@googlefont:Noto Color Emoji''\<rparr>,
      undoStack = [], redoStack = [], notifications = 0, localStorage = stored\<rparr>"

definition notifyListeners :: "manager \<Rightarrow> manager" where
  "notifyListeners m = m\<lparr>notifications := Suc (notifications m)\<rparr>"

definition saveSnapshot :: "json_api \<Rightarrow> manager \<Rightarrow> manager" where
  "saveSnapshot api m =
     (let snapshot = stringifyState api (state m)
      in if undoStack m = [] \<or> last (undoStack m) \<noteq> snapshot then
           (let pushed = undoStack m @ [snapshot];
                limited = (if length pushed > 50 then tl pushed else pushed)
            in m\<lparr>undoStack := limited, redoStack := [], localStorage := Some snapshot\<rparr>)
         else m)"

definition setSprites :: "sprite list \<Rightarrow> manager \<Rightarrow> manager" where
  "setSprites sps m = m\<lparr>state := (state m)\<lparr>sprites := sps\<rparr>\<rparr>"

text \<open>
  Objects are shared between \<open>this.state.sprites\<close> and the sorted copies of it, and are
  mutated through either. A reference to a sprite object is its position in
  \<open>this.state.sprites\<close>: \<open>findRef\<close> is \<open>sprites.find\<close>, \<open>sortedRefs\<close> is
  \<open>[...sprites].sort((a, b) => a.zIndex - b.zIndex)\<close> as a list of references, and
  \<open>findIndex\<close> is \<open>Array.prototype.findIndex\<close> (\<open>-1\<close> when nothing is found).
\<close>

definition findRef :: "(sprite \<Rightarrow> bool) \<Rightarrow> sprite list \<Rightarrow> nat option" where
  "findRef P sps = find (\<lambda>k. P (sps ! k)) [0..<length sps]"

definition sortedRefs :: "sprite list \<Rightarrow> nat list" where
  "sortedRefs sps = sort_key (\<lambda>k. zIndex (sps ! k)) [0..<length sps]"

definition findIndex :: "('a \<Rightarrow> bool) \<Rightarrow> 'a list \<Rightarrow> int" where
  "findIndex P xs = (case find (\<lambda>j. P (xs ! j)) [0..<length xs] of None \<Rightarrow> - 1 | Some j \<Rightarrow> int j)"

definition addSprite :: "json_api \<Rightarrow> string \<Rightarrow> real \<Rightarrow> real \<Rightarrow> manager \<Rightarrow> sprite \<times> manager" where
  "addSprite api e px py m =
     (let st = state m;
          s = \<lparr>spriteId = ''sprite-'' @ showNat (nextId st), emoji = e, posX = px, posY = py,
               rotation = 0, scaleX = 1, scaleY = 1, zIndex = int (length (sprites st))\<rparr>;
          st' = st\<lparr>nextId := nextId st + 1, sprites := sprites st @ [s],
                  selectedId := Some (spriteId s)\<rparr>
      in (s, notifyListeners (saveSnapshot api (m\<lparr>state := st'\<rparr>))))"

definition updateSprite :: "json_api \<Rightarrow> string \<Rightarrow> sprite_updates \<Rightarrow> manager \<Rightarrow> manager" where
  "updateSprite api i u m =
     (let sps = sprites (state m)
      in case findRef (\<lambda>s. spriteId s = i) sps of
           None \<Rightarrow> m
         | Some k \<Rightarrow>
             notifyListeners (saveSnapshot api (setSprites (sps[k := objectAssign (sps ! k) u]) m)))"

definition updateSpriteWithoutSnapshot :: "string \<Rightarrow> sprite_updates \<Rightarrow> manager \<Rightarrow> manager" where
  "updateSpriteWithoutSnapshot i u m =
     (let sps = sprites (state m)
      in case findRef (\<lambda>s. spriteId s = i) sps of
           None \<Rightarrow> m
         | Some k \<Rightarrow> notifyListeners (setSprites (sps[k := objectAssign (sps ! k) u]) m))"

definition finalizeChanges :: "json_api \<Rightarrow> manager \<Rightarrow> manager" where
  "finalizeChanges api m = saveSnapshot api m"

definition reindexZOrder :: "sprite list \<Rightarrow> sprite list" where
  "reindexZOrder sps =
     fold (\<lambda>(index, r) ys. ys[r := (ys ! r)\<lparr>zIndex := int index\<rparr>])
       (enumerate 0 (sortedRefs sps)) sps"

definition deleteSprite :: "json_api \<Rightarrow> string \<Rightarrow> manager \<Rightarrow> manager" where
  "deleteSprite api i m =
     (let st = state m;
          remaining = filter (\<lambda>s. spriteId s \<noteq> i) (sprites st);
          sel = (if selectedId st = Some i then None else selectedId st)
      in notifyListeners (saveSnapshot api
           (m\<lparr>state := st\<lparr>sprites := reindexZOrder remaining, selectedId := sel\<rparr>\<rparr>)))"

definition clearAll :: "json_api \<Rightarrow> manager \<Rightarrow> manager" where
  "clearAll api m =
     notifyListeners (saveSnapshot api (m\<lparr>state := (state m)\<lparr>sprites := [], selectedId := None\<rparr>\<rparr>))"

definition selectSprite :: "json_api \<Rightarrow> string option \<Rightarrow> manager \<Rightarrow> manager" where
  "selectSprite api i m =
     notifyListeners (saveSnapshot api (m\<lparr>state := (state m)\<lparr>selectedId := i\<rparr>\<rparr>))"

definition setShowOrigin :: "json_api \<Rightarrow> bool \<Rightarrow> manager \<Rightarrow> manager" where
  "setShowOrigin api b m =
     notifyListeners (saveSnapshot api (m\<lparr>state := (state m)\<lparr>showOrigin := b\<rparr>\<rparr>))"

definition setAxesOnTop :: "json_api \<Rightarrow> bool \<Rightarrow> manager \<Rightarrow> manager" where
  "setAxesOnTop api b m =
     notifyListeners (saveSnapshot api (m\<lparr>state := (state m)\<lparr>axesOnTop := b\<rparr>\<rparr>))"

definition setBorderOnTop :: "json_api \<Rightarrow> bool \<Rightarrow> manager \<Rightarrow> manager" where
  "setBorderOnTop api b m =
     notifyListeners (saveSnapshot api (m\<lparr>state := (state m)\<lparr>borderOnTop := b\<rparr>\<rparr>))"

definition setCustomFontInput :: "json_api \<Rightarrow> string \<Rightarrow> manager \<Rightarrow> manager" where
  "setCustomFontInput api f m =
     notifyListeners (saveSnapshot api (m\<lparr>state := (state m)\<lparr>customFont := f\<rparr>\<rparr>))"

text \<open>\<open>!this.state.selectedId\<close> also holds for the empty string.\<close>

definition getSelectedSprite :: "manager \<Rightarrow> sprite option" where
  "getSelectedSprite m =
     (case selectedId (state m) of
        None \<Rightarrow> None
      | Some i \<Rightarrow> if i = [] then None else find (\<lambda>s. spriteId s = i) (sprites (state m)))"

text \<open>
  \<open>moveLayerUp\<close> and \<open>moveLayerDown\<close> exchange the \<open>zIndex\<close> of the found sprite with
  that of its neighbour in sorted order. \<open>temp\<close> is read before the two writes.
\<close>

definition moveLayerUp :: "json_api \<Rightarrow> string \<Rightarrow> manager \<Rightarrow> manager" where
  "moveLayerUp api i m =
     (let sps = sprites (state m)
      in case findRef (\<lambda>s. spriteId s = i) sps of
           None \<Rightarrow> m
         | Some k \<Rightarrow>
             (let sorted = sortedRefs sps;
                  index = findIndex (\<lambda>r. spriteId (sps ! r) = i) sorted
              in if index < int (length sorted) - 1 then
                   (let nxt = sorted ! nat (index + 1);
                        temp = zIndex (sps ! nxt);
                        sps1 = sps[nxt := (sps ! nxt)\<lparr>zIndex := zIndex (sps ! k)\<rparr>];
                        sps2 = sps1[k := (sps1 ! k)\<lparr>zIndex := temp\<rparr>]
                    in notifyListeners (saveSnapshot api (setSprites sps2 m)))
                 else m))"

definition moveLayerDown :: "json_api \<Rightarrow> string \<Rightarrow> manager \<Rightarrow> manager" where
  "moveLayerDown api i m =
     (let sps = sprites (state m)
      in case findRef (\<lambda>s. spriteId s = i) sps of
           None \<Rightarrow> m
         | Some k \<Rightarrow>
             (let sorted = sortedRefs sps;
                  index = findIndex (\<lambda>r. spriteId (sps ! r) = i) sorted
              in if index > 0 then
                   (let prev = sorted ! nat (index - 1);
                        temp = zIndex (sps ! prev);
                        sps1 = sps[prev := (sps ! prev)\<lparr>zIndex := zIndex (sps ! k)\<rparr>];
                        sps2 = sps1[k := (sps1 ! k)\<lparr>zIndex := temp\<rparr>]
                    in notifyListeners (saveSnapshot api (setSprites sps2 m)))
                 else m))"

text \<open>
  \<open>Math.max(...)\<close> and \<open>Math.min(...)\<close> are taken over a non-empty list here: a sprite
  was found. \<open>zIndex\<close> is an integer here and \<open>maxZ + 1\<close>, \<open>minZ - 1\<close> are the exact
  sum and difference. The source computes them in double precision, which is exact as long
  as every \<open>zIndex\<close> is at most \<open>2^53 - 1\<close> in magnitude (\<open>safeIntegers\<close> below); above
  that \<open>maxZ + 1\<close> can be \<open>maxZ\<close> again.
\<close>

definition moveLayerToFront :: "json_api \<Rightarrow> string \<Rightarrow> manager \<Rightarrow> manager" where
  "moveLayerToFront api i m =
     (let sps = sprites (state m)
      in case findRef (\<lambda>s. spriteId s = i) sps of
           None \<Rightarrow> m
         | Some k \<Rightarrow>
             (let maxZ = Max (set (map zIndex sps));
                  sps1 = sps[k := (sps ! k)\<lparr>zIndex := maxZ + 1\<rparr>]
              in notifyListeners (saveSnapshot api (setSprites (reindexZOrder sps1) m))))"

definition moveLayerToBack :: "json_api \<Rightarrow> string \<Rightarrow> manager \<Rightarrow> manager" where
  "moveLayerToBack api i m =
     (let sps = sprites (state m)
      in case findRef (\<lambda>s. spriteId s = i) sps of
           None \<Rightarrow> m
         | Some k \<Rightarrow>
             (let minZ = Min (set (map zIndex sps));
                  sps1 = sps[k := (sps ! k)\<lparr>zIndex := minZ - 1\<rparr>]
              in notifyListeners (saveSnapshot api (setSprites (reindexZOrder sps1) m))))"

subsection \<open>History\<close>

definition undo :: "json_api \<Rightarrow> manager \<Rightarrow> manager" where
  "undo api m =
     (if length (undoStack m) \<le> 1 then m
      else
        (let current = last (undoStack m);
             popped = butlast (undoStack m);
             previous = last popped
         in notifyListeners
              (m\<lparr>undoStack := popped, redoStack := redoStack m @ [current],
                 state := parseState api previous\<rparr>)))"

definition redo :: "json_api \<Rightarrow> manager \<Rightarrow> manager" where
  "redo api m =
     (if length (redoStack m) = 0 then m
      else
        (let nxt = last (redoStack m)
         in notifyListeners
              (m\<lparr>redoStack := butlast (redoStack m), undoStack := undoStack m @ [nxt],
                 state := parseState api nxt\<rparr>)))"

definition canUndo :: "manager \<Rightarrow> bool" where
  "canUndo m = (length (undoStack m) > 1)"

definition canRedo :: "manager \<Rightarrow> bool" where
  "canRedo m = (length (redoStack m) > 0)"

text \<open>
  \<open>loadFromLocalStorage\<close> initialises the undo stack: with the stored text when it parses
  to an object with a \<open>sprites\<close> array, otherwise with the snapshot of the current state.
  The result is the returned flag and the manager.
\<close>

definition loadFromLocalStorage :: "json_api \<Rightarrow> manager \<Rightarrow> bool \<times> manager" where
  "loadFromLocalStorage api m =
     (let fresh = (False, m\<lparr>undoStack := [stringifyState api (state m)]\<rparr>)
      in case localStorage m of
           None \<Rightarrow> fresh
         | Some stored \<Rightarrow>
             if stored = [] then fresh
             else
               (case parseJSON api stored of
                  None \<Rightarrow> fresh
                | Some parsed \<Rightarrow>
                    if parsed = JNull \<or> parsed = JUndefined then fresh
                    else if truthy (getProp parsed ''sprites'') \<and> isArray (getProp parsed ''sprites'')
                    then (True, notifyListeners
                            (m\<lparr>state := parseState api stored, undoStack := [stored],
                               redoStack := []\<rparr>))
                    else fresh))"

subsection \<open>Export and import of the wire format\<close>

text \<open>
  \<open>exportJSON\<close>: the sprites in ascending \<open>zIndex\<close> (stable), each mapped to its compact
  object; a property is written only when its rounded value differs from the default.

  The numbers of the source are doubles and are real numbers here. \<open>Math.round(v * p) / p\<close>
  is the real rounding up to the rounding of the product and of the quotient to a double, as
  long as \<open>v * p\<close> is at most \<open>2^53 - 1\<close> in magnitude (\<open>safeNumbers\<close> below). Far above
  that the product of the source is \<open>Infinity\<close>, which \<open>JSON.stringify\<close> writes as
  \<open>null\<close>; this is outside the model.
\<close>

definition compactSprite :: "sprite \<Rightarrow> jsval" where
  "compactSprite s =
     (let x = mathRound (posX s * 100) / 100;
          y = mathRound (posY s * 100) / 100;
          rot = mathRound (rotation s * 10) / 10;
          sclX = mathRound (scaleX s * 10000) / 10000;
          sclY = mathRound (scaleY s * 10000) / 10000
      in JObj ([(''e'', JStr (emoji s))]
           @ (if x \<noteq> 0 then [(''x'', JNum x)] else [])
           @ (if y \<noteq> 0 then [(''y'', JNum y)] else [])
           @ (if rot \<noteq> 0 then [(''r'', JNum rot)] else [])
           @ (if sclX = sclY \<and> sclX \<noteq> 1 then [(''s'', JNum sclX)]
              else (if sclX \<noteq> 1 then [(''sx'', JNum sclX)] else [])
                 @ (if sclY \<noteq> 1 then [(''sy'', JNum sclY)] else []))))"



text \<open>
  The callback of \<open>imported.map\<close>: the object literal it returns for the element
  \<open>spr\<close> at position \<open>index\<close>. Reading \<open>spr.e\<close> throws when the element is
  \<open>null\<close>; that is the result \<open>None\<close>.
\<close>

definition importElement :: "nat \<Rightarrow> nat \<Rightarrow> jsval \<Rightarrow> jsval option" where
  "importElement nid index spr =
     (if spr = JNull \<or> spr = JUndefined then None
      else
        (let em = jsOr (getProp spr ''e'') (getProp spr ''emoji'');
             rot = (if getProp spr ''r'' \<noteq> JUndefined then getProp spr ''r''
                    else jsOr (getProp spr ''rotation'') (JNum 0));
             scl =
               (if getProp spr ''s'' \<noteq> JUndefined then (getProp spr ''s'', getProp spr ''s'')
                else if getProp spr ''sx'' \<noteq> JUndefined \<or> getProp spr ''sy'' \<noteq> JUndefined then
                  ((if getProp spr ''sx'' \<noteq> JUndefined then getProp spr ''sx'' else JNum 1),
                   (if getProp spr ''sy'' \<noteq> JUndefined then getProp spr ''sy'' else JNum 1))
                else if getProp spr ''scaleX'' \<noteq> JUndefined \<or> getProp spr ''scaleY'' \<noteq> JUndefined then
                  ((if getProp spr ''scaleX'' \<noteq> JUndefined then getProp spr ''scaleX'' else JNum 1),
                   (if getProp spr ''scaleY'' \<noteq> JUndefined then getProp spr ''scaleY'' else JNum 1))
                else if getProp spr ''scale'' \<noteq> JUndefined then
                  (getProp spr ''scale'', getProp spr ''scale'')
                else (JNum 1, JNum 1))
         in Some (JObj
              [(''id'', JStr (''sprite-'' @ showNat (nid + index))),
               (''emoji'', em),
               (''x'', jsOr (getProp spr ''x'') (JNum 0)),
               (''y'', jsOr (getProp spr ''y'') (JNum 0)),
               (''rotation'', rot),
               (''scaleX'', fst scl),
               (''scaleY'', snd scl),
               (''zIndex'', JNum (real index))])))"

fun importElements :: "nat \<Rightarrow> nat \<Rightarrow> jsval list \<Rightarrow> jsval list option" where
  "importElements nid index [] = Some []"
| "importElements nid index (spr # rest) =
     (case importElement nid index spr of
        None \<Rightarrow> None
      | Some obj \<Rightarrow>
          (case importElements nid (Suc index) rest of
             None \<Rightarrow> None
           | Some objs \<Rightarrow> Some (obj # objs)))"

text \<open>
  The source assigns what it imported to fields declared as \<open>SpriteObject[]\<close> and
  \<open>EditorState\<close> without checking it. \<open>decodeSprite\<close> and \<open>decodeState\<close> read a
  JavaScript value as a value of the declared type; they are \<open>None\<close> when the value does
  not have that type (a missing or ill-typed field).
\<close>

fun asStr :: "jsval \<Rightarrow> string option" where
  "asStr (JStr s) = Some s"
| "asStr _ = None"

fun asNum :: "jsval \<Rightarrow> real option" where
  "asNum (JNum r) = Some r"
| "asNum _ = None"

fun asBool :: "jsval \<Rightarrow> bool option" where
  "asBool (JBool b) = Some b"
| "asBool _ = None"

fun asInt :: "jsval \<Rightarrow> int option" where
  "asInt (JNum r) = (if of_int \<lfloor>r\<rfloor> = r then Some \<lfloor>r\<rfloor> else None)"
| "asInt _ = None"

fun asNat :: "jsval \<Rightarrow> nat option" where
  "asNat (JNum r) = (if of_int \<lfloor>r\<rfloor> = r \<and> 0 \<le> r then Some (nat \<lfloor>r\<rfloor>) else None)"
| "asNat _ = None"

fun asNullable :: "jsval \<Rightarrow> string option option" where
  "asNullable JNull = Some None"
| "asNullable (JStr s) = Some (Some s)"
| "asNullable _ = None"

definition decodeSprite :: "jsval \<Rightarrow> sprite option" where
  "decodeSprite v =
     (case asStr (getProp v ''id'') of None \<Rightarrow> None | Some i \<Rightarrow>
      case asStr (getProp v ''emoji'') of None \<Rightarrow> None | Some e \<Rightarrow>
      case asNum (getProp v ''x'') of None \<Rightarrow> None | Some px \<Rightarrow>
      case asNum (getProp v ''y'') of None \<Rightarrow> None | Some py \<Rightarrow>
      case asNum (getProp v ''rotation'') of None \<Rightarrow> None | Some rot \<Rightarrow>
      case asNum (getProp v ''scaleX'') of None \<Rightarrow> None | Some sclX \<Rightarrow>
      case asNum (getProp v ''scaleY'') of None \<Rightarrow> None | Some sclY \<Rightarrow>
      case asInt (getProp v ''zIndex'') of None \<Rightarrow> None | Some z \<Rightarrow>
        Some \<lparr>spriteId = i, emoji = e, posX = px, posY = py, rotation = rot,
              scaleX = sclX, scaleY = sclY, zIndex = z\<rparr>)"

fun decodeSprites :: "jsval list \<Rightarrow> sprite list option" where
  "decodeSprites [] = Some []"
| "decodeSprites (v # vs) =
     (case decodeSprite v of
        None \<Rightarrow> None
      | Some s \<Rightarrow> (case decodeSprites vs of None \<Rightarrow> None | Some ss \<Rightarrow> Some (s # ss)))"

definition decodeState :: "jsval \<Rightarrow> editor_state option" where
  "decodeState v =
     (case (case getProp v ''sprites'' of JArr es \<Rightarrow> decodeSprites es | _ \<Rightarrow> None) of
        None \<Rightarrow> None | Some sps \<Rightarrow>
      case asNullable (getProp v ''selectedId'') of None \<Rightarrow> None | Some sel \<Rightarrow>
      case asNat (getProp v ''nextId'') of None \<Rightarrow> None | Some nid \<Rightarrow>
      case asBool (getProp v ''showOrigin'') of None \<Rightarrow> None | Some so \<Rightarrow>
      case asBool (getProp v ''axesOnTop'') of None \<Rightarrow> None | Some ax \<Rightarrow>
      case asBool (getProp v ''borderOnTop'') of None \<Rightarrow> None | Some bo \<Rightarrow>
      case asStr (getProp v ''customFont'') of None \<Rightarrow> None | Some cf \<Rightarrow>
        Some \<lparr>sprites = sps, selectedId = sel, nextId = nid, showOrigin = so,
              axesOnTop = ax, borderOnTop = bo, customFont = cf\<rparr>)"

text \<open>
  The outcome of \<open>importJSON\<close>, up to the notification. \<open>ImportFalse m\<close>: it left through
  \<open>return false\<close> or through the handler before it assigned anything, and \<open>m\<close> is the
  manager. \<open>Imported m\<close>: it assigned the new sprites or the new state, took the snapshot
  and called \<open>notifyListeners\<close>, and \<open>m\<close> is the manager after that.
  \<open>ImportedUntyped v\<close>: likewise, after assigning \<open>v\<close> (the new \<open>sprites\<close> array on the
  compact path, the whole new state on the legacy path), and \<open>v\<close> is not a value of the
  declared type, so that the typed model cannot follow the manager further.
\<close>

datatype import_outcome =
  ImportFalse manager
| Imported manager
| ImportedUntyped jsval


definition importParsed :: "json_api \<Rightarrow> jsval \<Rightarrow> manager \<Rightarrow> import_outcome" where
  "importParsed api imported m =
     (case imported of
        JArr elems \<Rightarrow>
          (case importElements (nextId (state m)) 0 elems of
             None \<Rightarrow> ImportFalse m
           | Some objs \<Rightarrow>
               (case decodeSprites objs of
                  None \<Rightarrow> ImportedUntyped (JArr objs)
                | Some sps \<Rightarrow>
                    Imported (notifyListeners (saveSnapshot api
                      (m\<lparr>state := (state m)\<lparr>sprites := sps,
                            nextId := nextId (state m) + length sps,
                            selectedId := None\<rparr>\<rparr>)))))
      | JNull \<Rightarrow> ImportFalse m
      | JUndefined \<Rightarrow> ImportFalse m
      | _ \<Rightarrow>
          if truthy (getProp imported ''sprites'') \<and> isArray (getProp imported ''sprites'') then
            (case decodeState imported of
               None \<Rightarrow> ImportedUntyped imported
             | Some st \<Rightarrow> Imported (notifyListeners (saveSnapshot api (m\<lparr>state := st\<rparr>))))
          else ImportFalse m)"

definition importJSON :: "json_api \<Rightarrow> string \<Rightarrow> manager \<Rightarrow> import_outcome" where
  "importJSON api json m =
     (case parseJSON api json of
        None \<Rightarrow> ImportFalse m
      | Some imported \<Rightarrow> importParsed api imported m)"

section \<open>The interaction state machine (gizmo.ts, Gizmo)\<close>

datatype interaction_mode =
  ModeNone
| Dragging
| Rotating
| ScalingTopLeft
| ScalingTopRight
| ScalingBottomLeft
| ScalingBottomRight

record gizmo =
  mode :: interaction_mode
  dragStartPos :: "point option"
  dragStartSpriteState :: "sprite option"
  dragStartLocalPos :: "point option"

text \<open>\<open>v || d\<close> on numbers: \<open>d\<close> when \<open>v\<close> is zero.\<close>

definition numOr :: "real \<Rightarrow> real \<Rightarrow> real" where
  "numOr v d = (if v = 0 then d else v)"

text \<open>\<open>Math.atan2\<close>, the angle of the point \<open>(px, py)\<close> in \<open>(-pi, pi]\<close>.\<close>

definition atan2 :: "real \<Rightarrow> real \<Rightarrow> real" where
  "atan2 py px =
     (if px > 0 then arctan (py / px)
      else if px < 0 \<and> py \<ge> 0 then arctan (py / px) + pi
      else if px < 0 then arctan (py / px) - pi
      else if py > 0 then pi / 2
      else if py < 0 then - pi / 2
      else 0)"

definition handleRotation :: "gizmo \<Rightarrow> sprite \<Rightarrow> point \<Rightarrow> manager \<Rightarrow> manager" where
  "handleRotation g s mousePos m =
     (case dragStartSpriteState g of
        None \<Rightarrow> m
      | Some _ \<Rightarrow>
          (let angle = atan2 (ptY mousePos - posY s) (ptX mousePos - posX s);
               degrees = (angle * 180) / pi + 90
           in updateSpriteWithoutSnapshot (spriteId s) (noUpdates\<lparr>updRotation := Some degrees\<rparr>) m))"

definition handleScaling :: "gizmo \<Rightarrow> sprite \<Rightarrow> point \<Rightarrow> bool \<Rightarrow> manager \<Rightarrow> manager" where
  "handleScaling g s mousePos shiftKey m =
     (case (dragStartPos g, dragStartSpriteState g, dragStartLocalPos g) of
        (Some _, Some start, Some startLocal) \<Rightarrow>
          (case worldToLocalWithScale (posX s) (posY s) (rotation s)
                  (numOr (scaleX start) 1) (numOr (scaleY start) 1)
                  (ptX mousePos) (ptY mousePos) of
             None \<Rightarrow> m
           | Some currentLocal \<Rightarrow>
               (let startScaleX = numOr (scaleX start) 1;
                    startScaleY = numOr (scaleY start) 1
                in if shiftKey then
                     (let newScaleX =
                            (if \<bar>ptX startLocal\<bar> > 1 / 1000
                             then startScaleX * (ptX currentLocal / ptX startLocal)
                             else startScaleX);
                          newScaleY =
                            (if \<bar>ptY startLocal\<bar> > 1 / 1000
                             then startScaleY * (ptY currentLocal / ptY startLocal)
                             else startScaleY)
                      in updateSpriteWithoutSnapshot (spriteId s)
                           (noUpdates\<lparr>updScaleX := Some (max (1 / 10) \<bar>newScaleX\<bar>),
                                      updScaleY := Some (max (1 / 10) \<bar>newScaleY\<bar>)\<rparr>) m)
                   else
                     (let startDist = sqrt (ptX startLocal * ptX startLocal
                                            + ptY startLocal * ptY startLocal);
                          scaleRatio =
                            (if startDist > 1 / 1000
                             then sqrt (ptX currentLocal * ptX currentLocal
                                        + ptY currentLocal * ptY currentLocal) / startDist
                             else 1);
                          newScaleX = startScaleX * scaleRatio;
                          newScaleY = startScaleY * scaleRatio
                      in updateSpriteWithoutSnapshot (spriteId s)
                           (noUpdates\<lparr>updScaleX := Some (max (1 / 10) newScaleX),
                                      updScaleY := Some (max (1 / 10) newScaleY)\<rparr>) m)))
      | _ \<Rightarrow> m)"

text \<open>
  \<open>onPointerMove\<close> with the pointer already converted to world coordinates. In the idle
  mode only the cursor changes, which is not part of the model.
\<close>

definition onPointerMove :: "gizmo \<Rightarrow> point \<Rightarrow> bool \<Rightarrow> manager \<Rightarrow> manager" where
  "onPointerMove g mousePos shiftKey m =
     (if mode g = ModeNone \<or> dragStartPos g = None \<or> dragStartSpriteState g = None then m
      else
        (case getSelectedSprite m of
           None \<Rightarrow> m
         | Some selected \<Rightarrow>
             (let dx = ptX mousePos - ptX (the (dragStartPos g));
                  dy = ptY mousePos - ptY (the (dragStartPos g));
                  start = the (dragStartSpriteState g)
              in case mode g of
                   ModeNone \<Rightarrow> m
                 | Dragging \<Rightarrow>
                     updateSpriteWithoutSnapshot (spriteId selected)
                       (noUpdates\<lparr>updX := Some (numOr (posX start) 0 + dx),
                                  updY := Some (numOr (posY start) 0 + dy)\<rparr>) m
                 | Rotating \<Rightarrow> handleRotation g selected mousePos m
                 | _ \<Rightarrow> handleScaling g selected mousePos shiftKey m)))"

definition onPointerUp :: "json_api \<Rightarrow> gizmo \<Rightarrow> manager \<Rightarrow> gizmo \<times> manager" where
  "onPointerUp api g m =
     (\<lparr>mode = ModeNone, dragStartPos = None, dragStartSpriteState = None,
       dragStartLocalPos = None\<rparr>,
      if mode g \<noteq> ModeNone then finalizeChanges api m else m)"

section \<open>Z-order predicates\<close>

text \<open>
  \<open>dense\<close>: the multiset of the \<open>zIndex\<close> values is \<open>{0, ..., n - 1}\<close>.
  \<open>onlyZIndexChanged xs ys\<close>: the two arrays hold the same sprites position by position,
  up to their \<open>zIndex\<close>. \<open>orderKept touched xs ys\<close>: wherever one sprite was strictly
  below another in \<open>xs\<close>, and neither is at a touched position, it still is in \<open>ys\<close>.
\<close>

definition dense :: "sprite list \<Rightarrow> bool" where
  "dense sps = (mset (map zIndex sps) = mset (map int [0..<length sps]))"

definition onlyZIndexChanged :: "sprite list \<Rightarrow> sprite list \<Rightarrow> bool" where
  "onlyZIndexChanged xs ys =
     (length ys = length xs \<and> (\<forall>j<length xs. ys ! j = (xs ! j)\<lparr>zIndex := zIndex (ys ! j)\<rparr>))"

definition orderKept :: "nat set \<Rightarrow> sprite list \<Rightarrow> sprite list \<Rightarrow> bool" where
  "orderKept touched xs ys =
     (\<forall>i<length xs. \<forall>j<length xs. i \<notin> touched \<and> j \<notin> touched \<and> zIndex (xs ! i) < zIndex (xs ! j)
         \<longrightarrow> zIndex (ys ! i) < zIndex (ys ! j))"

text \<open>
  \<open>exchanged a b xs\<close>: the array \<open>xs\<close> after the sprites at the positions \<open>a\<close> and
  \<open>b\<close> have exchanged their \<open>zIndex\<close>. \<open>safeIntegers xs\<close>: every \<open>zIndex\<close> is within
  \<open>Number.MAX_SAFE_INTEGER\<close>, the range in which adding and subtracting one is exact in
  double precision.
\<close>

definition exchanged :: "nat \<Rightarrow> nat \<Rightarrow> sprite list \<Rightarrow> sprite list" where
  "exchanged a b xs =
     xs[a := (xs ! a)\<lparr>zIndex := zIndex (xs ! b)\<rparr>, b := (xs ! b)\<lparr>zIndex := zIndex (xs ! a)\<rparr>]"

definition safeIntegers :: "sprite list \<Rightarrow> bool" where
  "safeIntegers xs = (\<forall>s\<in>set xs. \<bar>zIndex s\<bar> \<le> 9007199254740991)"

section \<open>Predicates of the import and of the round trip\<close>






section \<open>The public operations as a transition system\<close>

definition setState :: "editor_state \<Rightarrow> manager \<Rightarrow> manager" where
  "setState newState m = notifyListeners (m\<lparr>state := newState\<rparr>)"

text \<open>
  One constructor for each public mutator of \<open>StateManager\<close>. \<open>perform\<close> is \<open>None\<close>
  when an import has installed a value that is not of the declared type. The manager after
  an import does not depend on what the listeners do.
\<close>

datatype operation =
  OpAddSprite string real real
| OpUpdateSprite string sprite_updates
| OpUpdateSpriteWithoutSnapshot string sprite_updates
| OpFinalizeChanges
| OpDeleteSprite string
| OpClearAll
| OpSelectSprite "string option"
| OpSetShowOrigin bool
| OpSetAxesOnTop bool
| OpSetBorderOnTop bool
| OpSetCustomFontInput string
| OpMoveLayerUp string
| OpMoveLayerDown string
| OpMoveLayerToFront string
| OpMoveLayerToBack string
| OpImportJSON string
| OpUndo
| OpRedo
| OpSetState editor_state

fun perform :: "json_api \<Rightarrow> operation \<Rightarrow> manager \<Rightarrow> manager option" where
  "perform api (OpAddSprite e px py) m = Some (snd (addSprite api e px py m))"
| "perform api (OpUpdateSprite i u) m = Some (updateSprite api i u m)"
| "perform api (OpUpdateSpriteWithoutSnapshot i u) m = Some (updateSpriteWithoutSnapshot i u m)"
| "perform api OpFinalizeChanges m = Some (finalizeChanges api m)"
| "perform api (OpDeleteSprite i) m = Some (deleteSprite api i m)"
| "perform api OpClearAll m = Some (clearAll api m)"
| "perform api (OpSelectSprite i) m = Some (selectSprite api i m)"
| "perform api (OpSetShowOrigin b) m = Some (setShowOrigin api b m)"
| "perform api (OpSetAxesOnTop b) m = Some (setAxesOnTop api b m)"
| "perform api (OpSetBorderOnTop b) m = Some (setBorderOnTop api b m)"
| "perform api (OpSetCustomFontInput f) m = Some (setCustomFontInput api f m)"
| "perform api (OpMoveLayerUp i) m = Some (moveLayerUp api i m)"
| "perform api (OpMoveLayerDown i) m = Some (moveLayerDown api i m)"
| "perform api (OpMoveLayerToFront i) m = Some (moveLayerToFront api i m)"
| "perform api (OpMoveLayerToBack i) m = Some (moveLayerToBack api i m)"
| "perform api (OpImportJSON json) m =
     (case importJSON api json m of
        ImportFalse m' \<Rightarrow> Some m'
      | Imported m' \<Rightarrow> Some m'
      | ImportedUntyped _ \<Rightarrow> None)"
| "perform api OpUndo m = Some (undo api m)"
| "perform api OpRedo m = Some (redo api m)"
| "perform api (OpSetState st) m = Some (setState st m)"

text \<open>
  The application constructs the manager and calls \<open>loadFromLocalStorage\<close> once, in
  its entry point; every later change goes through a public operation.
\<close>

inductive reachable :: "json_api \<Rightarrow> manager \<Rightarrow> bool" for api :: json_api where
  initial: "reachable api (snd (loadFromLocalStorage api (newStateManager stored)))"
| step: "reachable api m \<Longrightarrow> perform api op m = Some m' \<Longrightarrow> reachable api m'"

definition stacks :: "manager \<Rightarrow> string list \<times> string list" where
  "stacks m = (undoStack m, redoStack m)"

definition viaSnapshot :: "json_api \<Rightarrow> manager \<Rightarrow> manager \<Rightarrow> bool" where
  "viaSnapshot api m m' = (\<exists>st. stacks m' = stacks (saveSnapshot api (m\<lparr>state := st\<rparr>)))"

text \<open>
  The snapshots in the order they were committed: the undo stack, then the redo stack from
  its top.
\<close>

definition timeline :: "manager \<Rightarrow> string list" where
  "timeline m = undoStack m @ rev (redoStack m)"

section \<open>Concrete platform functions for evaluation\<close>

text \<open>
  To evaluate the model at a concrete input, the platform's JSON functions are given by two
  finite tables: texts with the values they denote, and texts with the states they denote.
\<close>

definition tableApi :: "(string \<times> jsval) list \<Rightarrow> (string \<times> editor_state) list \<Rightarrow> json_api" where
  "tableApi values states =
     \<lparr>parseJSON = map_of values,
      stringifyJSON = (\<lambda>v. case find (\<lambda>p. snd p = v) values of None \<Rightarrow> [] | Some p \<Rightarrow> fst p),
      stringifyState = (\<lambda>st. case find (\<lambda>p. snd p = st) states of None \<Rightarrow> [] | Some p \<Rightarrow> fst p),
      parseState = (\<lambda>t. case map_of states t of None \<Rightarrow> state (newStateManager None) | Some st \<Rightarrow> st)\<rparr>"

text \<open>The empty editor and its snapshot, as \<open>JSON.stringify\<close> prints it.\<close>

definition emptyStateText :: string where
  "emptyStateText = ''{\"sprites\":[],\"selectedId\":null,\"nextId\":1,\"showOrigin\":true,\"axesOnTop\":false,\"borderOnTop\":false,\"customFont\":\"@googlefont:Noto Color Emoji\"}''"

definition emptyApi :: json_api where
  "emptyApi = tableApi [(''[]'', JArr []), (''42'', JNum 42)]
     [(emptyStateText, state (newStateManager None))]"

definition startManager :: manager where
  "startManager = snd (loadFromLocalStorage emptyApi (newStateManager None))"

text \<open>
  A glyph whose ink extends 10 units to each side of the pen position, two overlapping
  sprites, and a manager holding them with the first one selected.
\<close>

definition squareGlyph :: measure_text where
  "squareGlyph font txt = \<lparr>actualBoundingBoxLeft = 10, actualBoundingBoxRight = 10,
      actualBoundingBoxAscent = 10, actualBoundingBoxDescent = 10\<rparr>"

definition spriteA :: sprite where
  "spriteA = \<lparr>spriteId = ''sprite-1'', emoji = ''A'', posX = 0, posY = 0, rotation = 0,
      scaleX = 1, scaleY = 1, zIndex = 0\<rparr>"

definition spriteB :: sprite where
  "spriteB = \<lparr>spriteId = ''sprite-2'', emoji = ''B'', posX = 5, posY = 5, rotation = 0,
      scaleX = 1, scaleY = 1, zIndex = 1\<rparr>"

definition twoSprites :: manager where
  "twoSprites = startManager\<lparr>state := (state startManager)\<lparr>sprites := [spriteA, spriteB],
      selectedId := Some ''sprite-1'', nextId := 3\<rparr>\<rparr>"

text \<open>A corner-scaling session on \<open>spriteA\<close> that grabbed the local point \<open>(10, 10)\<close>.\<close>

definition scalingSession :: gizmo where
  "scalingSession = \<lparr>mode = ScalingBottomRight, dragStartPos = Some \<lparr>ptX = 10, ptY = 10\<rparr>,
      dragStartSpriteState = Some spriteA,
      dragStartLocalPos = Some \<lparr>ptX = 10, ptY = 10\<rparr>\<rparr>"

text \<open>
  A full-state document of the legacy format whose two sprites carry the \<open>zIndex\<close> values
  3 and 7, the value and the state it denotes, and the manager after importing it into the
  empty editor.
\<close>

definition legacyText :: string where
  "legacyText = ''{\"sprites\":[{\"id\":\"sprite-1\",\"emoji\":\"A\",\"x\":0,\"y\":0,\"rotation\":0,\"scaleX\":1,\"scaleY\":1,\"zIndex\":3},{\"id\":\"sprite-2\",\"emoji\":\"B\",\"x\":0,\"y\":0,\"rotation\":0,\"scaleX\":1,\"scaleY\":1,\"zIndex\":7}],\"selectedId\":null,\"nextId\":3,\"showOrigin\":true,\"axesOnTop\":false,\"borderOnTop\":false,\"customFont\":\"Arial\"}''"

definition legacyValue :: jsval where
  "legacyValue = JObj
     [(''sprites'', JArr
        [JObj [(''id'', JStr ''sprite-1''), (''emoji'', JStr ''A''), (''x'', JNum 0), (''y'', JNum 0),
               (''rotation'', JNum 0), (''scaleX'', JNum 1), (''scaleY'', JNum 1), (''zIndex'', JNum 3)],
         JObj [(''id'', JStr ''sprite-2''), (''emoji'', JStr ''B''), (''x'', JNum 0), (''y'', JNum 0),
               (''rotation'', JNum 0), (''scaleX'', JNum 1), (''scaleY'', JNum 1), (''zIndex'', JNum 7)]]),
      (''selectedId'', JNull), (''nextId'', JNum 3), (''showOrigin'', JBool True),
      (''axesOnTop'', JBool False), (''borderOnTop'', JBool False), (''customFont'', JStr ''Arial'')]"

definition legacyState :: editor_state where
  "legacyState =
     \<lparr>sprites =
        [\<lparr>spriteId = ''sprite-1'', emoji = ''A'', posX = 0, posY = 0, rotation = 0,
          scaleX = 1, scaleY = 1, zIndex = 3\<rparr>,
         \<lparr>spriteId = ''sprite-2'', emoji = ''B'', posX = 0, posY = 0, rotation = 0,
          scaleX = 1, scaleY = 1, zIndex = 7\<rparr>],
      selectedId = None, nextId = 3, showOrigin = True, axesOnTop = False, borderOnTop = False,
      customFont = ''Arial''\<rparr>"

definition legacyApi :: json_api where
  "legacyApi = tableApi [(legacyText, legacyValue)]
     [(emptyStateText, state (newStateManager None)), (legacyText, legacyState)]"

definition legacyImported :: manager where
  "legacyImported =
     \<lparr>state = legacyState, undoStack = [emptyStateText, legacyText], redoStack = [],
      notifications = 1, localStorage = Some legacyText\<rparr>"







section \<open>Auxiliary facts\<close>

lemma mathRound_zero: "mathRound 0 = 0"
  by (simp add: mathRound_def)

lemma mathRound_of_int: "mathRound (of_int k) = of_int k"
  by (simp add: mathRound_def)

lemma round_scale_one: "mathRound 10000 / 10000 = 1"
  using mathRound_of_int [of 10000] by simp


lemma findRef_Some_iff:
  "findRef P xs = Some k \<longleftrightarrow> k < length xs \<and> P (xs ! k) \<and> (\<forall>j<k. \<not> P (xs ! j))"
  by (auto simp: findRef_def find_Some_iff)

lemma state_simps:
  "state (notifyListeners m) = state m"
  "state (saveSnapshot api m) = state m"
  "sprites (state (setSprites sps m)) = sps"
  by (simp_all add: notifyListeners_def saveSnapshot_def setSprites_def Let_def)

lemma upt_two: "[0..<2] = [0, Suc 0]"
  by (simp add: upt_rec)

lemma dense_iff_sort:
  "dense sps \<longleftrightarrow> sort (map zIndex sps) = map int [0..<length sps]"
proof
  assume "dense sps"
  then have "mset (map int [0..<length sps]) = mset (map zIndex sps)" by (simp add: dense_def)
  moreover have "sorted (map int [0..<length sps])"
    by (simp add: sorted_map strict_sorted_imp_sorted sorted_wrt_iff_nth_less)
  ultimately show "sort (map zIndex sps) = map int [0..<length sps]"
    by (rule properties_for_sort)
next
  assume "sort (map zIndex sps) = map int [0..<length sps]"
  then have "mset (sort (map zIndex sps)) = mset (map int [0..<length sps])" by simp
  then show "dense sps" by (simp add: dense_def)
qed

lemma startManager_eq:
  "startManager = (newStateManager None)\<lparr>undoStack := [emptyStateText]\<rparr>"
  by (simp add: startManager_def loadFromLocalStorage_def newStateManager_def Let_def
      emptyApi_def tableApi_def)

lemma reachable_startManager: "reachable emptyApi startManager"
  unfolding startManager_def by (rule reachable.initial)

lemma twoSprites_facts:
  "sprites (state twoSprites) = [spriteA, spriteB]"
  "dense (sprites (state twoSprites))"
  "findRef (\<lambda>s. spriteId s = ''sprite-1'') (sprites (state twoSprites)) = Some 0"
  "length (filter (\<lambda>s. spriteId s = ''sprite-1'') (sprites (state twoSprites))) = 1"
  by (simp_all add: twoSprites_def spriteA_def spriteB_def dense_def findRef_Some_iff upt_rec)

section \<open>Transform math: properties\<close>

lemma cos_sin_unit: "cos t * cos t + sin t * sin t = (1::real)"
  using sin_cos_squared_add2 [of t] by (simp add: power2_eq_square)

lemma rotate_back_x:
  "(a * cos t - b * sin t) * cos (- t) - (a * sin t + b * cos t) * sin (- t) = (a::real)"
proof -
  have "(a * cos t - b * sin t) * cos (- t) - (a * sin t + b * cos t) * sin (- t)
        = a * (cos t * cos t) + a * (sin t * sin t)"
    by (simp add: algebra_simps)
  also have "\<dots> = a * (cos t * cos t + sin t * sin t)"
    by (simp only: distrib_left)
  also have "\<dots> = a"
    by (simp only: cos_sin_unit mult_1_right)
  finally show ?thesis .
qed

lemma rotate_back_y:
  "(a * cos t - b * sin t) * sin (- t) + (a * sin t + b * cos t) * cos (- t) = (b::real)"
proof -
  have "(a * cos t - b * sin t) * sin (- t) + (a * sin t + b * cos t) * cos (- t)
        = b * (cos t * cos t) + b * (sin t * sin t)"
    by (simp add: algebra_simps)
  also have "\<dots> = b * (cos t * cos t + sin t * sin t)"
    by (simp only: distrib_left)
  also have "\<dots> = b"
    by (simp only: cos_sin_unit mult_1_right)
  finally show ?thesis .
qed

text \<open>
  Claim C8. For a sprite with non-zero \<open>scaleX\<close> and \<open>scaleY\<close> and every local point
  \<open>p\<close>, applying the paint transform (scale, rotate, translate) and then
  \<open>worldToLocal\<close> gives back \<open>p\<close>: \<open>worldToLocal\<close> is the exact inverse of the paint
  transform in real arithmetic.
\<close>

theorem worldToLocal_inverts_paintTransform:
  assumes "scaleX s \<noteq> 0" and "scaleY s \<noteq> 0"
  shows "worldToLocal s (ptX (paintTransform s p)) (ptY (paintTransform s p)) = Some p"
proof -
  define t where "t = rotation s * pi / 180"
  define a where "a = ptX p * scaleX s"
  define b where "b = ptY p * scaleY s"
  have neg: "- rotation s * pi / 180 = - t" by (simp add: t_def)
  have px: "ptX (paintTransform s p) - posX s = a * cos t - b * sin t"
    by (simp add: paintTransform_def rotatePoint_def Let_def t_def a_def b_def)
  have py: "ptY (paintTransform s p) - posY s = a * sin t + b * cos t"
    by (simp add: paintTransform_def rotatePoint_def Let_def t_def a_def b_def)
  have "worldToLocal s (ptX (paintTransform s p)) (ptY (paintTransform s p))
        = Some \<lparr>ptX = a / scaleX s, ptY = b / scaleY s\<rparr>"
    unfolding worldToLocal_def worldToLocalWithScale_def Let_def px py neg
    using assms by (simp only: rotate_back_x rotate_back_y if_False simp_thms)
  also have "\<dots> = Some p" using assms by (simp add: a_def b_def)
  finally show ?thesis .
qed

theorem worldToLocal_inverts_paintTransform_witness:
  "worldToLocal
     \<lparr>spriteId = ''sprite-1'', emoji = ''A'', posX = 3, posY = 4, rotation = 30,
      scaleX = 2, scaleY = 1 / 2, zIndex = 0\<rparr>
     (ptX (paintTransform
        \<lparr>spriteId = ''sprite-1'', emoji = ''A'', posX = 3, posY = 4, rotation = 30,
         scaleX = 2, scaleY = 1 / 2, zIndex = 0\<rparr> \<lparr>ptX = 5, ptY = 7\<rparr>))
     (ptY (paintTransform
        \<lparr>spriteId = ''sprite-1'', emoji = ''A'', posX = 3, posY = 4, rotation = 30,
         scaleX = 2, scaleY = 1 / 2, zIndex = 0\<rparr> \<lparr>ptX = 5, ptY = 7\<rparr>))
   = Some \<lparr>ptX = 5, ptY = 7\<rparr>"
  by (rule worldToLocal_inverts_paintTransform) simp_all

section \<open>Export: default omission\<close>

lemma ownKeys_compactSprite:
  "ownKeys (compactSprite s) =
     (let x = mathRound (posX s * 100) / 100;
          y = mathRound (posY s * 100) / 100;
          rot = mathRound (rotation s * 10) / 10;
          sclX = mathRound (scaleX s * 10000) / 10000;
          sclY = mathRound (scaleY s * 10000) / 10000
      in [''e''] @ (if x \<noteq> 0 then [''x''] else []) @ (if y \<noteq> 0 then [''y''] else [])
         @ (if rot \<noteq> 0 then [''r''] else [])
         @ (if sclX = sclY \<and> sclX \<noteq> 1 then [''s'']
            else (if sclX \<noteq> 1 then [''sx''] else []) @ (if sclY \<noteq> 1 then [''sy''] else [])))"
  by (simp add: compactSprite_def ownKeys_def Let_def)

text \<open>
  Claim C9. A sprite with \<open>x = 0\<close>, \<open>y = 0\<close>, \<open>rotation = 0\<close> and
  \<open>scaleX = scaleY = 1\<close> is exported as exactly the object with the single property
  \<open>e\<close>; and each field that has its default value is left out of the exported object:
  no \<open>x\<close> when \<open>x = 0\<close>, no \<open>y\<close> when \<open>y = 0\<close>, no \<open>r\<close> when the rotation is
  \<open>0\<close>, no \<open>sx\<close> (and no \<open>s\<close>) when \<open>scaleX = 1\<close>, no \<open>sy\<close> (and no \<open>s\<close>)
  when \<open>scaleY = 1\<close>.
\<close>

theorem export_omits_defaults:
  "(posX s = 0 \<and> posY s = 0 \<and> rotation s = 0 \<and> scaleX s = 1 \<and> scaleY s = 1
      \<longrightarrow> compactSprite s = JObj [(''e'', JStr (emoji s))])
   \<and> (posX s = 0 \<longrightarrow> ''x'' \<notin> set (ownKeys (compactSprite s)))
   \<and> (posY s = 0 \<longrightarrow> ''y'' \<notin> set (ownKeys (compactSprite s)))
   \<and> (rotation s = 0 \<longrightarrow> ''r'' \<notin> set (ownKeys (compactSprite s)))
   \<and> (scaleX s = 1 \<longrightarrow> ''sx'' \<notin> set (ownKeys (compactSprite s))
                        \<and> ''s'' \<notin> set (ownKeys (compactSprite s)))
   \<and> (scaleY s = 1 \<longrightarrow> ''sy'' \<notin> set (ownKeys (compactSprite s))
                        \<and> ''s'' \<notin> set (ownKeys (compactSprite s)))"
proof (intro conjI impI)
  assume "posX s = 0 \<and> posY s = 0 \<and> rotation s = 0 \<and> scaleX s = 1 \<and> scaleY s = 1"
  then show "compactSprite s = JObj [(''e'', JStr (emoji s))]"
    by (simp add: compactSprite_def Let_def mathRound_zero round_scale_one)
next
  assume "posX s = 0"
  then show "''x'' \<notin> set (ownKeys (compactSprite s))"
    by (simp add: ownKeys_compactSprite Let_def mathRound_zero)
next
  assume "posY s = 0"
  then show "''y'' \<notin> set (ownKeys (compactSprite s))"
    by (simp add: ownKeys_compactSprite Let_def mathRound_zero)
next
  assume "rotation s = 0"
  then show "''r'' \<notin> set (ownKeys (compactSprite s))"
    by (simp add: ownKeys_compactSprite Let_def mathRound_zero)
next
  assume "scaleX s = 1"
  then show "''sx'' \<notin> set (ownKeys (compactSprite s))"
    by (simp add: ownKeys_compactSprite Let_def round_scale_one)
next
  assume "scaleX s = 1"
  then show "''s'' \<notin> set (ownKeys (compactSprite s))"
    by (simp add: ownKeys_compactSprite Let_def round_scale_one)
next
  assume "scaleY s = 1"
  then show "''sy'' \<notin> set (ownKeys (compactSprite s))"
    by (simp add: ownKeys_compactSprite Let_def round_scale_one)
next
  assume "scaleY s = 1"
  then show "''s'' \<notin> set (ownKeys (compactSprite s))"
    by (auto simp add: ownKeys_compactSprite Let_def round_scale_one)
qed

theorem export_omits_defaults_witness:
  "compactSprite \<lparr>spriteId = ''sprite-7'', emoji = ''A'', posX = 0, posY = 0, rotation = 0,
      scaleX = 1, scaleY = 1, zIndex = 3\<rparr> = JObj [(''e'', JStr ''A'')]
   \<and> ''x'' \<notin> set (ownKeys (compactSprite \<lparr>spriteId = ''sprite-7'', emoji = ''A'', posX = 0,
        posY = 0, rotation = 0, scaleX = 1, scaleY = 1, zIndex = 3\<rparr>))
   \<and> ''y'' \<notin> set (ownKeys (compactSprite \<lparr>spriteId = ''sprite-7'', emoji = ''A'', posX = 0,
        posY = 0, rotation = 0, scaleX = 1, scaleY = 1, zIndex = 3\<rparr>))
   \<and> ''r'' \<notin> set (ownKeys (compactSprite \<lparr>spriteId = ''sprite-7'', emoji = ''A'', posX = 0,
        posY = 0, rotation = 0, scaleX = 1, scaleY = 1, zIndex = 3\<rparr>))
   \<and> ''s'' \<notin> set (ownKeys (compactSprite \<lparr>spriteId = ''sprite-7'', emoji = ''A'', posX = 0,
        posY = 0, rotation = 0, scaleX = 1, scaleY = 1, zIndex = 3\<rparr>))
   \<and> ''sx'' \<notin> set (ownKeys (compactSprite \<lparr>spriteId = ''sprite-7'', emoji = ''A'', posX = 0,
        posY = 0, rotation = 0, scaleX = 1, scaleY = 1, zIndex = 3\<rparr>))
   \<and> ''sy'' \<notin> set (ownKeys (compactSprite \<lparr>spriteId = ''sprite-7'', emoji = ''A'', posX = 0,
        posY = 0, rotation = 0, scaleX = 1, scaleY = 1, zIndex = 3\<rparr>))"
  using export_omits_defaults [of "\<lparr>spriteId = ''sprite-7'', emoji = ''A'', posX = 0, posY = 0,
      rotation = 0, scaleX = 1, scaleY = 1, zIndex = 3\<rparr>"]
  by (simp add: ownKeys_def)

section \<open>Updates of a sprite that does not exist\<close>

lemma findRef_None:
  assumes "\<forall>s\<in>set sps. \<not> P s"
  shows "findRef P sps = None"
  using assms by (auto simp: findRef_def find_None_iff)

text \<open>
  Claim C10. When \<open>i\<close> is not the id of any sprite of the state, \<open>updateSprite\<close> and
  \<open>updateSpriteWithoutSnapshot\<close> return the manager as it was: the state, both stacks
  (no snapshot is pushed) and the number of notifications (no listener is called) are
  unchanged.
\<close>

theorem update_of_unknown_id_is_noop:
  assumes "i \<notin> spriteId ` set (sprites (state m))"
  shows "updateSprite api i u m = m \<and> updateSpriteWithoutSnapshot i u m = m"
proof -
  have "findRef (\<lambda>s. spriteId s = i) (sprites (state m)) = None"
    using assms by (intro findRef_None) auto
  then show ?thesis
    by (simp add: updateSprite_def updateSpriteWithoutSnapshot_def Let_def)
qed

theorem update_of_unknown_id_is_noop_witness:
  "updateSprite emptyApi ''sprite-9'' (noUpdates\<lparr>updX := Some 5\<rparr>)
     (setSprites [\<lparr>spriteId = ''sprite-1'', emoji = ''A'', posX = 1, posY = 2, rotation = 0,
        scaleX = 1, scaleY = 1, zIndex = 0\<rparr>] startManager)
   = setSprites [\<lparr>spriteId = ''sprite-1'', emoji = ''A'', posX = 1, posY = 2, rotation = 0,
        scaleX = 1, scaleY = 1, zIndex = 0\<rparr>] startManager
   \<and> updateSpriteWithoutSnapshot ''sprite-9'' (noUpdates\<lparr>updX := Some 5\<rparr>)
     (setSprites [\<lparr>spriteId = ''sprite-1'', emoji = ''A'', posX = 1, posY = 2, rotation = 0,
        scaleX = 1, scaleY = 1, zIndex = 0\<rparr>] startManager)
   = setSprites [\<lparr>spriteId = ''sprite-1'', emoji = ''A'', posX = 1, posY = 2, rotation = 0,
        scaleX = 1, scaleY = 1, zIndex = 0\<rparr>] startManager"
  by (rule update_of_unknown_id_is_noop) (simp add: setSprites_def)

section \<open>History: the undo floor and the de-duplication of snapshots\<close>

lemma stacks_simps:
  "stacks (notifyListeners m) = stacks m"
  "stacks (setSprites sps m) = stacks m"
  "stacks (m\<lparr>state := st\<rparr>) = stacks m"
  by (simp_all add: stacks_def notifyListeners_def setSprites_def)

lemma stacks_saveSnapshot_state:
  "stacks m1 = stacks m2 \<Longrightarrow> state m1 = state m2 \<Longrightarrow>
   stacks (saveSnapshot api m1) = stacks (saveSnapshot api m2)"
  by (simp add: stacks_def saveSnapshot_def Let_def)

lemma viaSnapshot_save:
  assumes "stacks m1 = stacks m"
  shows "viaSnapshot api m (saveSnapshot api m1)"
proof -
  have "stacks (saveSnapshot api m1) = stacks (saveSnapshot api (m\<lparr>state := state m1\<rparr>))"
    by (rule stacks_saveSnapshot_state) (simp_all add: assms stacks_simps)
  then show ?thesis
    unfolding viaSnapshot_def by (intro exI[of _ "state m1"])
qed

lemma viaSnapshotI:
  assumes "stacks m1 = stacks m"
  shows "viaSnapshot api m (notifyListeners (saveSnapshot api m1))"
  using viaSnapshot_save[OF assms, of api] by (simp add: viaSnapshot_def stacks_simps)

text \<open>
  Every public operation leaves the stacks alone, or commits a snapshot of some state on
  top of the stacks it found, or is \<open>undo\<close> or \<open>redo\<close>.
\<close>

lemma perform_stacks:
  assumes "perform api op m = Some m'"
  shows "stacks m' = stacks m \<or> viaSnapshot api m m' \<or> m' = undo api m \<or> m' = redo api m"
proof (cases op)
  case (OpAddSprite e px py)
  then show ?thesis using assms by (auto simp: stacks_simps addSprite_def Let_def intro!: viaSnapshotI)
next
  case (OpUpdateSprite i u)
  then show ?thesis using assms
    by (auto simp: stacks_simps updateSprite_def Let_def intro!: viaSnapshotI split: option.splits)
next
  case (OpUpdateSpriteWithoutSnapshot i u)
  then show ?thesis using assms
    by (auto simp: stacks_simps updateSpriteWithoutSnapshot_def Let_def split: option.splits)
next
  case OpFinalizeChanges
  then show ?thesis
    using assms viaSnapshot_save[of m m api] by (auto simp: stacks_simps finalizeChanges_def)
next
  case (OpDeleteSprite i)
  then show ?thesis using assms by (auto simp: stacks_simps deleteSprite_def Let_def intro!: viaSnapshotI)
next
  case OpClearAll
  then show ?thesis using assms by (auto simp: stacks_simps clearAll_def Let_def intro!: viaSnapshotI)
next
  case (OpSelectSprite i)
  then show ?thesis using assms by (auto simp: stacks_simps selectSprite_def Let_def intro!: viaSnapshotI)
next
  case (OpSetShowOrigin b)
  then show ?thesis using assms by (auto simp: stacks_simps setShowOrigin_def Let_def intro!: viaSnapshotI)
next
  case (OpSetAxesOnTop b)
  then show ?thesis using assms by (auto simp: stacks_simps setAxesOnTop_def Let_def intro!: viaSnapshotI)
next
  case (OpSetBorderOnTop b)
  then show ?thesis using assms by (auto simp: stacks_simps setBorderOnTop_def Let_def intro!: viaSnapshotI)
next
  case (OpSetCustomFontInput f)
  then show ?thesis
    using assms by (auto simp: stacks_simps setCustomFontInput_def Let_def intro!: viaSnapshotI)
next
  case (OpMoveLayerUp i)
  then show ?thesis using assms
    by (auto simp: stacks_simps moveLayerUp_def Let_def intro!: viaSnapshotI split: option.splits)
next
  case (OpMoveLayerDown i)
  then show ?thesis using assms
    by (auto simp: stacks_simps moveLayerDown_def Let_def intro!: viaSnapshotI split: option.splits)
next
  case (OpMoveLayerToFront i)
  then show ?thesis using assms
    by (auto simp: stacks_simps moveLayerToFront_def Let_def intro!: viaSnapshotI split: option.splits)
next
  case (OpMoveLayerToBack i)
  then show ?thesis using assms
    by (auto simp: stacks_simps moveLayerToBack_def Let_def intro!: viaSnapshotI split: option.splits)
next
  case (OpImportJSON json)
  then show ?thesis using assms
    by (auto simp: stacks_simps importJSON_def importParsed_def Let_def intro!: viaSnapshotI
        split: option.splits jsval.splits import_outcome.splits if_splits)
next
  case OpUndo
  then show ?thesis using assms by auto
next
  case OpRedo
  then show ?thesis using assms by auto
next
  case (OpSetState st)
  then show ?thesis using assms by (auto simp: stacks_simps setState_def)
qed

lemma undoStack_saveSnapshot_nonempty: "undoStack (saveSnapshot api m) \<noteq> []"
proof (cases "undoStack m = [] \<or> last (undoStack m) \<noteq> stringifyState api (state m)")
  case True
  have "tl (undoStack m @ [x]) \<noteq> []" if "50 < length (undoStack m @ [x])" for x
    using that by (cases "undoStack m") auto
  with True show ?thesis by (auto simp: saveSnapshot_def Let_def)
next
  case False
  then show ?thesis by (auto simp: saveSnapshot_def Let_def)
qed

lemma undoStack_undo_nonempty: "undoStack m \<noteq> [] \<Longrightarrow> undoStack (undo api m) \<noteq> []"
proof -
  assume ne: "undoStack m \<noteq> []"
  have "butlast (undoStack m) \<noteq> []" if "\<not> length (undoStack m) \<le> 1"
    using that by (cases "undoStack m" rule: rev_cases) auto
  with ne show ?thesis by (auto simp: undo_def Let_def notifyListeners_def)
qed

lemma undoStack_redo_nonempty: "undoStack m \<noteq> [] \<Longrightarrow> undoStack (redo api m) \<noteq> []"
  by (auto simp: redo_def Let_def notifyListeners_def)

lemma undoStack_load: "length (undoStack (snd (loadFromLocalStorage api m))) = 1"
  by (auto simp: loadFromLocalStorage_def Let_def notifyListeners_def split: option.splits)

lemma redoStack_load:
  "redoStack m = [] \<Longrightarrow> redoStack (snd (loadFromLocalStorage api m)) = []"
  by (auto simp: loadFromLocalStorage_def Let_def notifyListeners_def split: option.splits)

lemma perform_undoStack_nonempty:
  assumes "undoStack m \<noteq> []" and "perform api op m = Some m'"
  shows "undoStack m' \<noteq> []"
proof -
  from perform_stacks[OF assms(2)]
  consider "stacks m' = stacks m" | "viaSnapshot api m m'" | "m' = undo api m" | "m' = redo api m"
    by blast
  then show ?thesis
  proof cases
    case 1
    then show ?thesis using assms(1) by (simp add: stacks_def)
  next
    case 2
    then obtain st where "undoStack m' = undoStack (saveSnapshot api (m\<lparr>state := st\<rparr>))"
      by (auto simp: viaSnapshot_def stacks_def)
    then show ?thesis by (simp add: undoStack_saveSnapshot_nonempty)
  next
    case 3
    then show ?thesis using assms(1) undoStack_undo_nonempty by simp
  next
    case 4
    then show ?thesis using assms(1) undoStack_redo_nonempty by simp
  qed
qed

lemma reachable_undoStack_nonempty:
  assumes "reachable api m"
  shows "undoStack m \<noteq> []"
  using assms
proof (induction rule: reachable.induct)
  case (initial stored)
  show ?case using undoStack_load[of api "newStateManager stored"] by auto
next
  case (step m op m')
  then show ?case using perform_undoStack_nonempty by blast
qed

text \<open>
  Claim C6. When the undo stack holds exactly one entry, \<open>undo\<close> returns the manager
  unchanged (state, undo stack and redo stack; no listener is called) and \<open>canUndo\<close> is
  false. The undo stack is never empty once initialised: it is non-empty in every
  reachable manager, and no public operation empties a non-empty undo stack.
\<close>

theorem undo_floor:
  "(length (undoStack m) = 1 \<longrightarrow> undo api m = m \<and> \<not> canUndo m)
   \<and> (reachable api m \<longrightarrow> undoStack m \<noteq> [])
   \<and> (undoStack m \<noteq> [] \<and> perform api op m = Some m' \<longrightarrow> undoStack m' \<noteq> [])"
  using reachable_undoStack_nonempty perform_undoStack_nonempty
  by (auto simp: undo_def canUndo_def)

theorem undo_floor_witness:
  "length (undoStack startManager) = 1
   \<and> undo emptyApi startManager = startManager
   \<and> \<not> canUndo startManager
   \<and> reachable emptyApi startManager
   \<and> undoStack startManager \<noteq> []
   \<and> perform emptyApi OpUndo startManager = Some startManager
   \<and> undoStack startManager \<noteq> []"
proof -
  have len: "length (undoStack startManager) = 1"
    by (simp add: startManager_eq)
  from undo_floor [of startManager emptyApi OpUndo startManager] len reachable_startManager
  show ?thesis by simp
qed

lemma timeline_stacks: "stacks m1 = stacks m2 \<Longrightarrow> timeline m1 = timeline m2"
  by (simp add: timeline_def stacks_def)

lemma timeline_undo: "timeline (undo api m) = timeline m"
proof (cases "length (undoStack m) \<le> 1")
  case True
  then show ?thesis by (simp add: undo_def)
next
  case False
  then have "undoStack m \<noteq> []" by auto
  then have "butlast (undoStack m) @ [last (undoStack m)] = undoStack m" by simp
  with False show ?thesis
    by (simp add: undo_def Let_def timeline_def notifyListeners_def)
qed

lemma timeline_redo: "timeline (redo api m) = timeline m"
proof (cases "redoStack m" rule: rev_cases)
  case Nil
  then show ?thesis by (simp add: redo_def)
next
  case (snoc ys y)
  then show ?thesis
    by (simp add: redo_def Let_def timeline_def notifyListeners_def)
qed

lemma distinct_adj_tl: "distinct_adj xs \<Longrightarrow> distinct_adj (tl xs)"
  by (cases xs) (auto simp: distinct_adj_Cons)

lemma distinct_adj_snoc:
  "distinct_adj xs \<Longrightarrow> xs = [] \<or> last xs \<noteq> x \<Longrightarrow> distinct_adj (xs @ [x])"
  by (auto simp: distinct_adj_append_iff)

lemma timeline_saveSnapshot:
  assumes "distinct_adj (timeline m)"
  shows "distinct_adj (timeline (saveSnapshot api m))"
proof (cases "undoStack m = [] \<or> last (undoStack m) \<noteq> stringifyState api (state m)")
  case True
  have u: "distinct_adj (undoStack m)"
    using assms by (auto simp: timeline_def distinct_adj_append_iff)
  have "distinct_adj (undoStack m @ [stringifyState api (state m)])"
    using u True by (intro distinct_adj_snoc) auto
  then show ?thesis
    using True by (auto simp: saveSnapshot_def Let_def timeline_def intro: distinct_adj_tl)
next
  case False
  then show ?thesis using assms by (auto simp: saveSnapshot_def Let_def)
qed

lemma perform_timeline:
  assumes "distinct_adj (timeline m)" and "perform api op m = Some m'"
  shows "distinct_adj (timeline m')"
proof -
  from perform_stacks[OF assms(2)]
  consider "stacks m' = stacks m" | "viaSnapshot api m m'" | "m' = undo api m" | "m' = redo api m"
    by blast
  then show ?thesis
  proof cases
    case 1
    then show ?thesis using assms(1) timeline_stacks by metis
  next
    case 2
    then obtain st where st: "stacks m' = stacks (saveSnapshot api (m\<lparr>state := st\<rparr>))"
      by (auto simp: viaSnapshot_def)
    have "timeline (m\<lparr>state := st\<rparr>) = timeline m" by (simp add: timeline_def)
    then have "distinct_adj (timeline (saveSnapshot api (m\<lparr>state := st\<rparr>)))"
      using assms(1) timeline_saveSnapshot by metis
    then show ?thesis using timeline_stacks[OF st] by simp
  next
    case 3
    then show ?thesis using assms(1) by (simp add: timeline_undo)
  next
    case 4
    then show ?thesis using assms(1) by (simp add: timeline_redo)
  qed
qed

lemma reachable_timeline:
  assumes "reachable api m"
  shows "distinct_adj (timeline m)"
  using assms
proof (induction rule: reachable.induct)
  case (initial stored)
  have "length (undoStack (snd (loadFromLocalStorage api (newStateManager stored)))) = 1"
    by (rule undoStack_load)
  moreover have "redoStack (snd (loadFromLocalStorage api (newStateManager stored))) = []"
    by (rule redoStack_load) (simp add: newStateManager_def)
  ultimately show ?case
    by (cases "undoStack (snd (loadFromLocalStorage api (newStateManager stored)))")
       (auto simp: timeline_def)
next
  case (step m op m')
  then show ?case using perform_timeline by blast
qed

text \<open>
  Claim C7. Committing (\<open>saveSnapshot\<close>, which \<open>finalizeChanges\<close> and every committing
  operation call) when the serialised state equals the top of the undo stack leaves the
  manager, and so both stacks, unchanged. Consequently no two consecutive entries of the
  undo stack are equal in any reachable manager; more precisely the committed snapshots
  (undo stack followed by the redo stack from its top) never repeat an entry next to itself,
  and every public operation keeps it so.
\<close>

theorem snapshot_deduplication:
  "(undoStack m \<noteq> [] \<and> last (undoStack m) = stringifyState api (state m)
      \<longrightarrow> saveSnapshot api m = m \<and> finalizeChanges api m = m)
   \<and> (reachable api m \<longrightarrow> distinct_adj (undoStack m) \<and> distinct_adj (timeline m))
   \<and> (distinct_adj (timeline m) \<and> perform api op m = Some m' \<longrightarrow> distinct_adj (timeline m'))"
proof (intro conjI impI)
  assume "undoStack m \<noteq> [] \<and> last (undoStack m) = stringifyState api (state m)"
  then show "saveSnapshot api m = m" "finalizeChanges api m = m"
    by (simp_all add: saveSnapshot_def finalizeChanges_def Let_def)
next
  assume r: "reachable api m"
  then show "distinct_adj (timeline m)" by (rule reachable_timeline)
  then show "distinct_adj (undoStack m)"
    by (auto simp: timeline_def distinct_adj_append_iff)
next
  assume "distinct_adj (timeline m) \<and> perform api op m = Some m'"
  then show "distinct_adj (timeline m')" using perform_timeline by blast
qed

theorem snapshot_deduplication_witness:
  "undoStack startManager \<noteq> []
   \<and> last (undoStack startManager) = stringifyState emptyApi (state startManager)
   \<and> saveSnapshot emptyApi startManager = startManager
   \<and> finalizeChanges emptyApi startManager = startManager
   \<and> reachable emptyApi startManager
   \<and> distinct_adj (undoStack startManager)
   \<and> distinct_adj (timeline startManager)
   \<and> perform emptyApi OpFinalizeChanges startManager = Some startManager
   \<and> distinct_adj (timeline startManager)"
proof -
  have top: "undoStack startManager \<noteq> []
      \<and> last (undoStack startManager) = stringifyState emptyApi (state startManager)"
    by (simp add: startManager_eq newStateManager_def emptyApi_def tableApi_def)
  from snapshot_deduplication [of startManager emptyApi OpFinalizeChanges startManager]
    top reachable_startManager
  show ?thesis by simp
qed

section \<open>Hit testing: the topmost sprite wins\<close>

lemma find_sorted_key_least:
  assumes "find P (sort_key f xs) = Some x"
  shows "x \<in> set xs \<and> P x \<and> (\<forall>t\<in>set xs. P t \<longrightarrow> f x \<le> f t)"
proof -
  let ?ys = "sort_key f xs"
  from assms obtain i where i: "i < length ?ys" "P (?ys ! i)" "x = ?ys ! i"
    and first: "\<forall>j<i. \<not> P (?ys ! j)"
    by (auto simp: find_Some_iff)
  have srt: "sorted (map f ?ys)" by simp
  have "x \<in> set xs" using i by (metis nth_mem set_sort)
  moreover have "f x \<le> f t" if t: "t \<in> set xs" "P t" for t
  proof -
    from t have "t \<in> set ?ys" by simp
    then obtain j where j: "j < length ?ys" "?ys ! j = t" by (metis in_set_conv_nth)
    with first t have "i \<le> j" by (metis not_le_imp_less)
    then have "map f ?ys ! i \<le> map f ?ys ! j"
      using srt j by (intro sorted_nth_mono) auto
    then show ?thesis using i j by simp
  qed
  ultimately show ?thesis using i by blast
qed

text \<open>
  Claim C2. \<open>hitTest\<close> returns \<open>None\<close> exactly when no sprite contains the point;
  when it returns an id, that is the id of a sprite that contains the point and whose
  \<open>zIndex\<close> is greatest among the sprites that contain the point. In particular, for two
  sprites \<open>a\<close> with \<open>zIndex = 0\<close> and \<open>b\<close> with \<open>zIndex = 1\<close> that both contain the
  point, \<open>hitTest\<close> returns the id of \<open>b\<close>, in either array order.
\<close>

theorem hitTest_returns_topmost:
  "(hitTest mt sps wx wy font = None
      \<longleftrightarrow> (\<forall>s\<in>set sps. \<not> isPointInSprite mt s wx wy font))
   \<and> (\<forall>i. hitTest mt sps wx wy font = Some i \<longrightarrow>
         (\<exists>s\<in>set sps. spriteId s = i \<and> isPointInSprite mt s wx wy font
            \<and> (\<forall>t\<in>set sps. isPointInSprite mt t wx wy font \<longrightarrow> zIndex t \<le> zIndex s)))
   \<and> (zIndex a = 0 \<and> zIndex b = 1 \<and> isPointInSprite mt a wx wy font
        \<and> isPointInSprite mt b wx wy font
      \<longrightarrow> hitTest mt [a, b] wx wy font = Some (spriteId b)
          \<and> hitTest mt [b, a] wx wy font = Some (spriteId b))"
proof (intro conjI allI impI)
  show "hitTest mt sps wx wy font = None
      \<longleftrightarrow> (\<forall>s\<in>set sps. \<not> isPointInSprite mt s wx wy font)"
  proof -
    have "find (\<lambda>s. isPointInSprite mt s wx wy font) (sort_key (\<lambda>s. - zIndex s) sps) = None
          \<longleftrightarrow> (\<forall>s\<in>set sps. \<not> isPointInSprite mt s wx wy font)"
      by (auto simp: find_None_iff)
    moreover have "hitTest mt sps wx wy font = None \<longleftrightarrow>
        find (\<lambda>s. isPointInSprite mt s wx wy font) (sort_key (\<lambda>s. - zIndex s) sps) = None"
      by (simp add: hitTest_def Let_def split: option.splits)
    ultimately show ?thesis by simp
  qed
next
  fix i
  assume "hitTest mt sps wx wy font = Some i"
  then obtain s where
    s: "find (\<lambda>s. isPointInSprite mt s wx wy font) (sort_key (\<lambda>s. - zIndex s) sps) = Some s"
    and i: "i = spriteId s"
    by (auto simp: hitTest_def Let_def split: option.splits)
  from find_sorted_key_least[OF s]
  show "\<exists>s\<in>set sps. spriteId s = i \<and> isPointInSprite mt s wx wy font
            \<and> (\<forall>t\<in>set sps. isPointInSprite mt t wx wy font \<longrightarrow> zIndex t \<le> zIndex s)"
    using i by auto
next
  assume "zIndex a = 0 \<and> zIndex b = 1 \<and> isPointInSprite mt a wx wy font
        \<and> isPointInSprite mt b wx wy font"
  then show "hitTest mt [a, b] wx wy font = Some (spriteId b)"
    by (simp add: hitTest_def Let_def)
next
  assume "zIndex a = 0 \<and> zIndex b = 1 \<and> isPointInSprite mt a wx wy font
        \<and> isPointInSprite mt b wx wy font"
  then show "hitTest mt [b, a] wx wy font = Some (spriteId b)"
    by (simp add: hitTest_def Let_def)
qed

lemma inside_spriteA: "isPointInSprite squareGlyph spriteA 3 3 ''Arial''"
  by (simp add: isPointInSprite_def getSpriteBounds_def squareGlyph_def spriteA_def Let_def)

lemma inside_spriteB: "isPointInSprite squareGlyph spriteB 3 3 ''Arial''"
  by (simp add: isPointInSprite_def getSpriteBounds_def squareGlyph_def spriteB_def Let_def)

lemma outside_spriteA: "\<not> isPointInSprite squareGlyph spriteA 50 50 ''Arial''"
  by (simp add: isPointInSprite_def getSpriteBounds_def squareGlyph_def spriteA_def Let_def)

theorem hitTest_returns_topmost_witness:
  "hitTest squareGlyph [spriteA, spriteB] 3 3 ''Arial'' = Some ''sprite-2''
   \<and> hitTest squareGlyph [spriteB, spriteA] 3 3 ''Arial'' = Some ''sprite-2''
   \<and> hitTest squareGlyph [spriteA] 50 50 ''Arial'' = None"
proof -
  have z: "zIndex spriteA = 0 \<and> zIndex spriteB = 1" by (simp add: spriteA_def spriteB_def)
  have n: "\<forall>s\<in>set [spriteA]. \<not> isPointInSprite squareGlyph s 50 50 ''Arial''"
    using outside_spriteA by simp
  from hitTest_returns_topmost [of squareGlyph "[spriteA, spriteB]" 3 3 "''Arial''" spriteA spriteB]
    z inside_spriteA inside_spriteB
  have "hitTest squareGlyph [spriteA, spriteB] 3 3 ''Arial'' = Some (spriteId spriteB)
        \<and> hitTest squareGlyph [spriteB, spriteA] 3 3 ''Arial'' = Some (spriteId spriteB)"
    by blast
  moreover from hitTest_returns_topmost [of squareGlyph "[spriteA]" 50 50 "''Arial''"] n
  have "hitTest squareGlyph [spriteA] 50 50 ''Arial'' = None" by blast
  ultimately show ?thesis by (simp add: spriteB_def)
qed

section \<open>Corner scaling pins the grabbed point\<close>

lemma find_Some_findRef:
  assumes "find P xs = Some x"
  shows "\<exists>k. findRef P xs = Some k \<and> k < length xs \<and> xs ! k = x"
  using assms by (auto simp: find_Some_iff findRef_Some_iff)

lemma find_after_update:
  assumes "findRef P xs = Some k" and "P y"
  shows "find P (xs[k := y]) = Some y"
  using assms by (auto simp: find_Some_iff findRef_Some_iff intro!: exI[of _ k])

lemma getSelectedSprite_Some:
  assumes "getSelectedSprite m = Some s"
  shows "selectedId (state m) = Some (spriteId s) \<and> spriteId s \<noteq> []
         \<and> find (\<lambda>t. spriteId t = spriteId s) (sprites (state m)) = Some s"
proof -
  from assms obtain i where i: "selectedId (state m) = Some i" "i \<noteq> []"
    "find (\<lambda>t. spriteId t = i) (sprites (state m)) = Some s"
    by (auto simp: getSelectedSprite_def split: option.splits if_splits)
  then have "spriteId s = i" by (auto simp: find_Some_iff)
  with i show ?thesis by simp
qed

lemma selected_after_update:
  assumes sel: "getSelectedSprite m = Some s"
    and keep: "updId u = None"
  shows "getSelectedSprite (updateSpriteWithoutSnapshot (spriteId s) u m) = Some (objectAssign s u)"
proof -
  from getSelectedSprite_Some[OF sel]
  have a: "selectedId (state m) = Some (spriteId s)" and b: "spriteId s \<noteq> []"
    and c: "find (\<lambda>t. spriteId t = spriteId s) (sprites (state m)) = Some s"
    by auto
  from find_Some_findRef[OF c] obtain k where
    k: "findRef (\<lambda>t. spriteId t = spriteId s) (sprites (state m)) = Some k"
      "sprites (state m) ! k = s"
    by auto
  have id: "spriteId (objectAssign s u) = spriteId s"
    using keep by (simp add: objectAssign_def orElse_def)
  have "find (\<lambda>t. spriteId t = spriteId s) ((sprites (state m))[k := objectAssign s u])
        = Some (objectAssign s u)"
    using k(1) id by (intro find_after_update) auto
  then show ?thesis
    using a b k
    by (simp add: updateSpriteWithoutSnapshot_def Let_def getSelectedSprite_def
        notifyListeners_def setSprites_def)
qed

lemma sqrt_800_200: "sqrt 800 / sqrt 200 = 2"
proof -
  have "sqrt 800 / sqrt 200 = sqrt (800 / 200)" by (simp only: real_sqrt_divide)
  also have "\<dots> = sqrt (2\<^sup>2)" by simp
  also have "\<dots> = 2" by simp
  finally show ?thesis .
qed

lemma sqrt_200_large: "1 < sqrt 200 * 1000"
proof -
  have "(1::real) < sqrt 200" by simp
  then show ?thesis by linarith
qed

lemma local_at_origin:
  "worldToLocalWithScale 0 0 0 1 1 wx wy = Some \<lparr>ptX = wx, ptY = wy\<rparr>"
  by (simp add: worldToLocalWithScale_def Let_def)

text \<open>
  Claim C3. In a corner-scaling session without the modifier key, whose drag-start state
  has \<open>scaleX = scaleY = 1\<close> and whose drag-start local grab point is \<open>(10, 10)\<close>, for
  a selected sprite at the origin with rotation \<open>0\<close>, a pointer move to the world point
  \<open>(20, 20)\<close> sets \<open>scaleX = scaleY = 2\<close> (exactly, over the reals) and changes nothing
  else of the sprite; under the updated paint transform the grabbed local point
  \<open>(10, 10)\<close> lies at the pointer's world position \<open>(20, 20)\<close>.
\<close>

theorem uniform_scale_pins_grab_point:
  assumes md: "mode g \<in> {ScalingTopLeft, ScalingTopRight, ScalingBottomLeft, ScalingBottomRight}"
    and dsp: "dragStartPos g = Some downPos"
    and dss: "dragStartSpriteState g = Some start"
    and sc: "scaleX start = 1" "scaleY start = 1"
    and dsl: "dragStartLocalPos g = Some \<lparr>ptX = 10, ptY = 10\<rparr>"
    and sel: "getSelectedSprite m = Some s"
    and origin: "posX s = 0" "posY s = 0" "rotation s = 0"
  shows "getSelectedSprite (onPointerMove g \<lparr>ptX = 20, ptY = 20\<rparr> False m)
           = Some (s\<lparr>scaleX := 2, scaleY := 2\<rparr>)
         \<and> paintTransform (s\<lparr>scaleX := 2, scaleY := 2\<rparr>) \<lparr>ptX = 10, ptY = 10\<rparr>
           = \<lparr>ptX = 20, ptY = 20\<rparr>"
proof -
  let ?u = "noUpdates\<lparr>updScaleX := Some 2, updScaleY := Some 2\<rparr>"
  have hs: "handleScaling g s \<lparr>ptX = 20, ptY = 20\<rparr> False m
            = updateSpriteWithoutSnapshot (spriteId s) ?u m"
    using dsp dss sc dsl origin
    by (simp add: handleScaling_def numOr_def local_at_origin Let_def sqrt_800_200
        sqrt_200_large)
  have "onPointerMove g \<lparr>ptX = 20, ptY = 20\<rparr> False m
        = handleScaling g s \<lparr>ptX = 20, ptY = 20\<rparr> False m"
    using md dsp dss sel by (auto simp: onPointerMove_def Let_def)
  with hs have "getSelectedSprite (onPointerMove g \<lparr>ptX = 20, ptY = 20\<rparr> False m)
        = Some (objectAssign s ?u)"
    using selected_after_update[OF sel, of ?u] by (simp add: noUpdates_def)
  moreover have "objectAssign s ?u = s\<lparr>scaleX := 2, scaleY := 2\<rparr>"
    by (simp add: objectAssign_def orElse_def noUpdates_def)
  moreover have "paintTransform (s\<lparr>scaleX := 2, scaleY := 2\<rparr>) \<lparr>ptX = 10, ptY = 10\<rparr>
           = \<lparr>ptX = 20, ptY = 20\<rparr>"
    using origin by (simp add: paintTransform_def rotatePoint_def Let_def)
  ultimately show ?thesis by simp
qed

lemma selected_twoSprites: "getSelectedSprite twoSprites = Some spriteA"
  by (simp add: getSelectedSprite_def twoSprites_def spriteA_def spriteB_def)

theorem uniform_scale_pins_grab_point_witness:
  "getSelectedSprite (onPointerMove scalingSession \<lparr>ptX = 20, ptY = 20\<rparr> False twoSprites)
     = Some (spriteA\<lparr>scaleX := 2, scaleY := 2\<rparr>)
   \<and> paintTransform (spriteA\<lparr>scaleX := 2, scaleY := 2\<rparr>) \<lparr>ptX = 10, ptY = 10\<rparr>
     = \<lparr>ptX = 20, ptY = 20\<rparr>"
  by (rule uniform_scale_pins_grab_point [where start = spriteA and downPos = "\<lparr>ptX = 10, ptY = 10\<rparr>"])
     (simp_all add: scalingSession_def selected_twoSprites spriteA_def)

section \<open>Z-order: density and relative order\<close>

lemma fold_assign_index:
  assumes "distinct refs" and "\<forall>r\<in>set refs. r < length ys"
  shows "length (fold (\<lambda>(index, r) zs. zs[r := (zs ! r)\<lparr>zIndex := int index\<rparr>]) (enumerate n refs) ys)
           = length ys
         \<and> (\<forall>k<length refs.
              fold (\<lambda>(index, r) zs. zs[r := (zs ! r)\<lparr>zIndex := int index\<rparr>]) (enumerate n refs) ys
                ! (refs ! k) = (ys ! (refs ! k))\<lparr>zIndex := int (n + k)\<rparr>)
         \<and> (\<forall>j<length ys. j \<notin> set refs \<longrightarrow>
              fold (\<lambda>(index, r) zs. zs[r := (zs ! r)\<lparr>zIndex := int index\<rparr>]) (enumerate n refs) ys
                ! j = ys ! j)"
  using assms
proof (induction refs arbitrary: ys n)
  case Nil
  then show ?case by simp
next
  case (Cons r rs)
  let ?step = "\<lambda>(index, r) zs. zs[r := (zs ! r)\<lparr>zIndex := int index\<rparr>]"
  let ?ys' = "ys[r := (ys ! r)\<lparr>zIndex := int n\<rparr>]"
  let ?res = "fold ?step (enumerate (Suc n) rs) ?ys'"
  have eq: "fold ?step (enumerate n (r # rs)) ys = ?res" by simp
  have d: "distinct rs" and rn: "r \<notin> set rs" using Cons.prems(1) by auto
  have b: "\<forall>q\<in>set rs. q < length ?ys'" using Cons.prems(2) by auto
  have rl: "r < length ys" using Cons.prems(2) by auto
  note IH = Cons.IH[OF d b, of "Suc n"]
  have len: "length ?res = length ys" using IH by simp
  have at_rs: "?res ! (rs ! k) = (ys ! (rs ! k))\<lparr>zIndex := int (Suc n + k)\<rparr>" if "k < length rs" for k
  proof -
    have "rs ! k \<noteq> r" using rn that by (metis nth_mem)
    moreover have "?res ! (rs ! k) = (?ys' ! (rs ! k))\<lparr>zIndex := int (Suc n + k)\<rparr>"
      using IH that by blast
    ultimately show ?thesis by simp
  qed
  have at_r: "?res ! r = (ys ! r)\<lparr>zIndex := int n\<rparr>"
  proof -
    have "?res ! r = ?ys' ! r" using IH rn rl by simp
    then show ?thesis using rl by simp
  qed
  have other: "?res ! j = ys ! j" if "j < length ys" "j \<notin> set (r # rs)" for j
  proof -
    have "?res ! j = ?ys' ! j" using IH that by simp
    then show ?thesis using that by simp
  qed
  have "\<forall>k<length (r # rs). ?res ! ((r # rs) ! k) = (ys ! ((r # rs) ! k))\<lparr>zIndex := int (n + k)\<rparr>"
  proof (intro allI impI)
    fix k assume "k < length (r # rs)"
    then show "?res ! ((r # rs) ! k) = (ys ! ((r # rs) ! k))\<lparr>zIndex := int (n + k)\<rparr>"
      using at_r at_rs by (cases k) auto
  qed
  with len other show ?case unfolding eq by blast
qed

lemma sortedRefs_props:
  "mset (sortedRefs sps) = mset [0..<length sps]"
  "distinct (sortedRefs sps)"
  "set (sortedRefs sps) = {0..<length sps}"
  "length (sortedRefs sps) = length sps"
  "sorted (map (\<lambda>k. zIndex (sps ! k)) (sortedRefs sps))"
  by (simp_all add: sortedRefs_def)

lemma reindex_nth:
  "length (reindexZOrder sps) = length sps"
  "k < length sps \<Longrightarrow>
     reindexZOrder sps ! (sortedRefs sps ! k) = (sps ! (sortedRefs sps ! k))\<lparr>zIndex := int k\<rparr>"
proof -
  have a: "distinct (sortedRefs sps)" and b: "\<forall>r\<in>set (sortedRefs sps). r < length sps"
    by (simp_all add: sortedRefs_props)
  note f = fold_assign_index[OF a b, of 0]
  show "length (reindexZOrder sps) = length sps"
    using f by (simp add: reindexZOrder_def)
  show "reindexZOrder sps ! (sortedRefs sps ! k) = (sps ! (sortedRefs sps ! k))\<lparr>zIndex := int k\<rparr>"
    if "k < length sps"
    using f that by (simp add: reindexZOrder_def sortedRefs_props)
qed

lemma rank_exists:
  assumes "j < length sps"
  shows "\<exists>k<length sps. sortedRefs sps ! k = j"
proof -
  have "j \<in> set (sortedRefs sps)" using assms by (simp add: sortedRefs_props)
  then show ?thesis by (metis in_set_conv_nth sortedRefs_props(4))
qed

lemma reindex_onlyZIndexChanged: "onlyZIndexChanged sps (reindexZOrder sps)"
  unfolding onlyZIndexChanged_def
proof (intro conjI allI impI)
  show "length (reindexZOrder sps) = length sps" by (rule reindex_nth)
next
  fix j assume "j < length sps"
  then obtain k where k: "k < length sps" "sortedRefs sps ! k = j" using rank_exists by blast
  from reindex_nth(2)[OF k(1)] k(2)
  have "reindexZOrder sps ! j = (sps ! j)\<lparr>zIndex := int k\<rparr>" by simp
  then show "reindexZOrder sps ! j = (sps ! j)\<lparr>zIndex := zIndex (reindexZOrder sps ! j)\<rparr>"
    by simp
qed

lemma reindex_dense: "dense (reindexZOrder sps)"
proof -
  let ?n = "length sps"
  let ?res = "reindexZOrder sps"
  let ?g = "\<lambda>j. zIndex (?res ! j)"
  have len: "length ?res = ?n" by (rule reindex_nth)
  have "map zIndex ?res = map ?g [0..<?n]"
    by (rule nth_equalityI) (simp_all add: len)
  then have "mset (map zIndex ?res) = image_mset ?g (mset [0..<?n])" by simp
  also have "\<dots> = image_mset ?g (mset (sortedRefs sps))" by (simp add: sortedRefs_props)
  also have "\<dots> = mset (map ?g (sortedRefs sps))" by simp
  also have "map ?g (sortedRefs sps) = map int [0..<?n]"
  proof (rule nth_equalityI)
    show "length (map ?g (sortedRefs sps)) = length (map int [0..<?n])"
      by (simp add: sortedRefs_props)
  next
    fix k assume "k < length (map ?g (sortedRefs sps))"
    then have k: "k < ?n" by (simp add: sortedRefs_props)
    then show "map ?g (sortedRefs sps) ! k = map int [0..<?n] ! k"
      using reindex_nth(2)[OF k] by (simp add: sortedRefs_props)
  qed
  finally show ?thesis by (simp add: dense_def len)
qed

lemma reindex_orderKept: "orderKept {} sps (reindexZOrder sps)"
  unfolding orderKept_def
proof (intro allI impI)
  fix i j
  assume i: "i < length sps" and j: "j < length sps"
    and h: "i \<notin> {} \<and> j \<notin> {} \<and> zIndex (sps ! i) < zIndex (sps ! j)"
  obtain a where a: "a < length sps" "sortedRefs sps ! a = i" using rank_exists[OF i] by blast
  obtain b where b: "b < length sps" "sortedRefs sps ! b = j" using rank_exists[OF j] by blast
  have "a < b"
  proof (rule ccontr)
    assume "\<not> a < b"
    then have "b \<le> a" by simp
    then have "map (\<lambda>k. zIndex (sps ! k)) (sortedRefs sps) ! b
               \<le> map (\<lambda>k. zIndex (sps ! k)) (sortedRefs sps) ! a"
      using a by (intro sorted_nth_mono) (simp_all add: sortedRefs_props)
    then show False using a b h by (simp add: sortedRefs_props)
  qed
  moreover have "zIndex (reindexZOrder sps ! i) = int a"
    using reindex_nth(2)[OF a(1)] a(2) by simp
  moreover have "zIndex (reindexZOrder sps ! j) = int b"
    using reindex_nth(2)[OF b(1)] b(2) by simp
  ultimately show "zIndex (reindexZOrder sps ! i) < zIndex (reindexZOrder sps ! j)" by simp
qed

lemma sprites_deleteSprite:
  "sprites (state (deleteSprite api i m))
     = reindexZOrder (filter (\<lambda>s. spriteId s \<noteq> i) (sprites (state m)))"
  by (simp add: deleteSprite_def Let_def state_simps)

lemma sprites_moveLayerToFront:
  assumes "findRef (\<lambda>s. spriteId s = i) (sprites (state m)) = Some k"
  shows "sprites (state (moveLayerToFront api i m))
     = reindexZOrder ((sprites (state m))
         [k := (sprites (state m) ! k)\<lparr>zIndex := Max (set (map zIndex (sprites (state m)))) + 1\<rparr>])"
  using assms by (simp add: moveLayerToFront_def Let_def state_simps)

lemma sprites_moveLayerToBack:
  assumes "findRef (\<lambda>s. spriteId s = i) (sprites (state m)) = Some k"
  shows "sprites (state (moveLayerToBack api i m))
     = reindexZOrder ((sprites (state m))
         [k := (sprites (state m) ! k)\<lparr>zIndex := Min (set (map zIndex (sprites (state m)))) - 1\<rparr>])"
  using assms by (simp add: moveLayerToBack_def Let_def state_simps)

lemma sprites_move_unfound:
  assumes "findRef (\<lambda>s. spriteId s = i) (sprites (state m)) = None"
  shows "moveLayerToFront api i m = m" "moveLayerToBack api i m = m"
    "moveLayerUp api i m = m" "moveLayerDown api i m = m"
  using assms
  by (simp_all add: moveLayerToFront_def moveLayerToBack_def moveLayerUp_def moveLayerDown_def
      Let_def)

text \<open>Writing a new zIndex at one position, then renumbering.\<close>

lemma reindex_after_write:
  fixes sps :: "sprite list" and z :: int
  assumes k: "k < length sps"
  defines "sps1 \<equiv> sps[k := (sps ! k)\<lparr>zIndex := z\<rparr>]"
  shows "dense (reindexZOrder sps1)"
    and "onlyZIndexChanged sps (reindexZOrder sps1)"
    and "orderKept {k} sps (reindexZOrder sps1)"
    and "(\<forall>j<length sps. zIndex (sps ! j) < z) \<Longrightarrow>
         \<forall>j<length sps. j \<noteq> k \<longrightarrow> zIndex (reindexZOrder sps1 ! j) < zIndex (reindexZOrder sps1 ! k)"
    and "(\<forall>j<length sps. z < zIndex (sps ! j)) \<Longrightarrow>
         \<forall>j<length sps. j \<noteq> k \<longrightarrow> zIndex (reindexZOrder sps1 ! k) < zIndex (reindexZOrder sps1 ! j)"
proof -
  have len1: "length sps1 = length sps" by (simp add: sps1_def)
  have nth1: "sps1 ! j = (if j = k then (sps ! k)\<lparr>zIndex := z\<rparr> else sps ! j)"
    if "j < length sps" for j
    using that by (simp add: sps1_def nth_list_update)
  show "dense (reindexZOrder sps1)" by (rule reindex_dense)
  have oz: "onlyZIndexChanged sps1 (reindexZOrder sps1)" by (rule reindex_onlyZIndexChanged)
  show "onlyZIndexChanged sps (reindexZOrder sps1)"
    unfolding onlyZIndexChanged_def
  proof (intro conjI allI impI)
    show "length (reindexZOrder sps1) = length sps"
      using oz len1 by (simp add: onlyZIndexChanged_def)
  next
    fix j assume j: "j < length sps"
    have "reindexZOrder sps1 ! j = (sps1 ! j)\<lparr>zIndex := zIndex (reindexZOrder sps1 ! j)\<rparr>"
      using oz j len1 by (simp add: onlyZIndexChanged_def)
    then show "reindexZOrder sps1 ! j = (sps ! j)\<lparr>zIndex := zIndex (reindexZOrder sps1 ! j)\<rparr>"
      using nth1[OF j] by (cases "j = k") simp_all
  qed
  have ok: "orderKept {} sps1 (reindexZOrder sps1)" by (rule reindex_orderKept)
  show "orderKept {k} sps (reindexZOrder sps1)"
    unfolding orderKept_def
  proof (intro allI impI)
    fix i j
    assume i: "i < length sps" and j: "j < length sps"
      and h: "i \<notin> {k} \<and> j \<notin> {k} \<and> zIndex (sps ! i) < zIndex (sps ! j)"
    then have "zIndex (sps1 ! i) < zIndex (sps1 ! j)" using nth1 by simp
    then show "zIndex (reindexZOrder sps1 ! i) < zIndex (reindexZOrder sps1 ! j)"
      using ok i j len1 by (simp add: orderKept_def)
  qed
  show "\<forall>j<length sps. j \<noteq> k \<longrightarrow> zIndex (reindexZOrder sps1 ! j) < zIndex (reindexZOrder sps1 ! k)"
    if top: "\<forall>j<length sps. zIndex (sps ! j) < z"
  proof (intro allI impI)
    fix j assume j: "j < length sps" "j \<noteq> k"
    then have "zIndex (sps1 ! j) < zIndex (sps1 ! k)" using nth1 k top by simp
    then show "zIndex (reindexZOrder sps1 ! j) < zIndex (reindexZOrder sps1 ! k)"
      using ok j k len1 by (simp add: orderKept_def)
  qed
  show "\<forall>j<length sps. j \<noteq> k \<longrightarrow> zIndex (reindexZOrder sps1 ! k) < zIndex (reindexZOrder sps1 ! j)"
    if bot: "\<forall>j<length sps. z < zIndex (sps ! j)"
  proof (intro allI impI)
    fix j assume j: "j < length sps" "j \<noteq> k"
    then have "zIndex (sps1 ! k) < zIndex (sps1 ! j)" using nth1 k bot by simp
    then show "zIndex (reindexZOrder sps1 ! k) < zIndex (reindexZOrder sps1 ! j)"
      using ok j k len1 by (simp add: orderKept_def)
  qed
qed

lemma below_Max_plus_one:
  assumes "j < length sps"
  shows "zIndex (sps ! j) < Max (set (map zIndex sps)) + 1"
proof -
  have "zIndex (sps ! j) \<in> set (map zIndex sps)" using assms by simp
  then have "zIndex (sps ! j) \<le> Max (set (map zIndex sps))" by (intro Max_ge) auto
  then show ?thesis by simp
qed

lemma above_Min_minus_one:
  assumes "j < length sps"
  shows "Min (set (map zIndex sps)) - 1 < zIndex (sps ! j)"
proof -
  have "zIndex (sps ! j) \<in> set (map zIndex sps)" using assms by simp
  then have "Min (set (map zIndex sps)) \<le> zIndex (sps ! j)" by (intro Min_le) auto
  then show ?thesis by simp
qed

text \<open>Exchanging the zIndex of two sprites, as moveLayerUp and moveLayerDown write it.\<close>

lemma exchange_zIndex:
  assumes a: "a < length xs" and b: "b < length xs"
  defines "xs1 \<equiv> xs[a := (xs ! a)\<lparr>zIndex := zIndex (xs ! b)\<rparr>]"
  defines "xs2 \<equiv> xs1[b := (xs1 ! b)\<lparr>zIndex := zIndex (xs ! a)\<rparr>]"
  shows "mset (map zIndex xs2) = mset (map zIndex xs)"
    and "onlyZIndexChanged xs xs2"
    and "\<forall>j<length xs. j \<noteq> a \<and> j \<noteq> b \<longrightarrow> xs2 ! j = xs ! j"
proof -
  show "\<forall>j<length xs. j \<noteq> a \<and> j \<noteq> b \<longrightarrow> xs2 ! j = xs ! j"
    by (simp add: xs1_def xs2_def)
  show "onlyZIndexChanged xs xs2"
    unfolding onlyZIndexChanged_def
    using a b by (auto simp: xs1_def xs2_def nth_list_update)
  show "mset (map zIndex xs2) = mset (map zIndex xs)"
  proof (cases "a = b")
    case True
    then have "map zIndex xs2 = map zIndex xs"
      using a by (intro nth_equalityI) (auto simp: xs1_def xs2_def nth_list_update)
    then show ?thesis by simp
  next
    case False
    let ?ls = "map zIndex xs"
    have "map zIndex xs2 = ?ls[a := ?ls ! b, b := ?ls ! a]"
      using a b False by (intro nth_equalityI) (auto simp: xs1_def xs2_def nth_list_update)
    moreover have "mset (?ls[a := ?ls ! b, b := ?ls ! a]) = mset ?ls"
      using a b by (intro mset_swap) auto
    ultimately show ?thesis by simp
  qed
qed

lemma findIndex_bounds: "- 1 \<le> findIndex P xs \<and> findIndex P xs < int (length xs)"
  by (auto simp: findIndex_def find_Some_iff split: option.splits)

lemma dense_cong:
  "mset (map zIndex ys) = mset (map zIndex xs) \<Longrightarrow> dense xs \<Longrightarrow> dense ys"
proof -
  assume h: "mset (map zIndex ys) = mset (map zIndex xs)" and d: "dense xs"
  from h have "length ys = length xs" by (metis length_map size_mset)
  with h d show ?thesis by (simp add: dense_def)
qed

lemma moveLayerUp_exchange:
  "sprites (state (moveLayerUp api i m)) = sprites (state m)
   \<or> (\<exists>a b. a < length (sprites (state m)) \<and> b < length (sprites (state m))
        \<and> sprites (state (moveLayerUp api i m))
          = ((sprites (state m))[a := (sprites (state m) ! a)\<lparr>zIndex := zIndex (sprites (state m) ! b)\<rparr>])
              [b := ((sprites (state m))[a := (sprites (state m) ! a)\<lparr>zIndex := zIndex (sprites (state m) ! b)\<rparr>] ! b)
                      \<lparr>zIndex := zIndex (sprites (state m) ! a)\<rparr>])"
proof (cases "findRef (\<lambda>s. spriteId s = i) (sprites (state m))")
  case None
  then show ?thesis by (simp add: sprites_move_unfound)
next
  case (Some k)
  let ?sps = "sprites (state m)"
  let ?sorted = "sortedRefs ?sps"
  let ?index = "findIndex (\<lambda>r. spriteId (?sps ! r) = i) ?sorted"
  have k: "k < length ?sps" using Some by (simp add: findRef_Some_iff)
  show ?thesis
  proof (cases "?index < int (length ?sorted) - 1")
    case False
    then show ?thesis using Some by (simp add: moveLayerUp_def Let_def)
  next
    case True
    let ?a = "?sorted ! nat (?index + 1)"
    have "nat (?index + 1) < length ?sorted"
      using True findIndex_bounds[of "\<lambda>r. spriteId (?sps ! r) = i" ?sorted] by linarith
    then have "?a \<in> set ?sorted" by (rule nth_mem)
    then have a: "?a < length ?sps" by (simp add: sortedRefs_props)
    have "sprites (state (moveLayerUp api i m))
          = (?sps[?a := (?sps ! ?a)\<lparr>zIndex := zIndex (?sps ! k)\<rparr>])
              [k := (?sps[?a := (?sps ! ?a)\<lparr>zIndex := zIndex (?sps ! k)\<rparr>] ! k)
                      \<lparr>zIndex := zIndex (?sps ! ?a)\<rparr>]"
      using Some True by (simp add: moveLayerUp_def Let_def state_simps)
    with a k show ?thesis by blast
  qed
qed

lemma moveLayerDown_exchange:
  "sprites (state (moveLayerDown api i m)) = sprites (state m)
   \<or> (\<exists>a b. a < length (sprites (state m)) \<and> b < length (sprites (state m))
        \<and> sprites (state (moveLayerDown api i m))
          = ((sprites (state m))[a := (sprites (state m) ! a)\<lparr>zIndex := zIndex (sprites (state m) ! b)\<rparr>])
              [b := ((sprites (state m))[a := (sprites (state m) ! a)\<lparr>zIndex := zIndex (sprites (state m) ! b)\<rparr>] ! b)
                      \<lparr>zIndex := zIndex (sprites (state m) ! a)\<rparr>])"
proof (cases "findRef (\<lambda>s. spriteId s = i) (sprites (state m))")
  case None
  then show ?thesis by (simp add: sprites_move_unfound)
next
  case (Some k)
  let ?sps = "sprites (state m)"
  let ?sorted = "sortedRefs ?sps"
  let ?index = "findIndex (\<lambda>r. spriteId (?sps ! r) = i) ?sorted"
  have k: "k < length ?sps" using Some by (simp add: findRef_Some_iff)
  show ?thesis
  proof (cases "?index > 0")
    case False
    then show ?thesis using Some by (simp add: moveLayerDown_def Let_def)
  next
    case True
    let ?a = "?sorted ! nat (?index - 1)"
    have "nat (?index - 1) < length ?sorted"
      using True findIndex_bounds[of "\<lambda>r. spriteId (?sps ! r) = i" ?sorted] by linarith
    then have "?a \<in> set ?sorted" by (rule nth_mem)
    then have a: "?a < length ?sps" by (simp add: sortedRefs_props)
    have "sprites (state (moveLayerDown api i m))
          = (?sps[?a := (?sps ! ?a)\<lparr>zIndex := zIndex (?sps ! k)\<rparr>])
              [k := (?sps[?a := (?sps ! ?a)\<lparr>zIndex := zIndex (?sps ! k)\<rparr>] ! k)
                      \<lparr>zIndex := zIndex (?sps ! ?a)\<rparr>]"
      using Some True by (simp add: moveLayerDown_def Let_def state_simps)
    with a k show ?thesis by blast
  qed
qed

lemma dense_append_new:
  assumes "dense sps" and "zIndex s = int (length sps)"
  shows "dense (sps @ [s])"
  using assms by (simp add: dense_def)

lemma sprites_addSprite:
  "sprites (state (snd (addSprite api e px py m)))
     = sprites (state m) @ [fst (addSprite api e px py m)]"
  "zIndex (fst (addSprite api e px py m)) = int (length (sprites (state m)))"
  by (simp_all add: addSprite_def Let_def state_simps)

lemma length_filter_one:
  assumes "length (filter P xs) = 1"
  shows "length (filter (\<lambda>x. \<not> P x) xs) + 1 = length xs"
  using sum_length_filter_compl[of P xs] assms by simp

lemma code_exchange:
  assumes a: "a < length xs" and b: "b < length xs"
  shows "(xs[a := (xs ! a)\<lparr>zIndex := zIndex (xs ! b)\<rparr>])
           [b := (xs[a := (xs ! a)\<lparr>zIndex := zIndex (xs ! b)\<rparr>] ! b)\<lparr>zIndex := zIndex (xs ! a)\<rparr>]
         = exchanged b a xs"
proof (cases "a = b")
  case True
  then show ?thesis using a by (simp add: exchanged_def)
next
  case False
  then show ?thesis using a b by (simp add: exchanged_def list_update_swap)
qed

lemma dense_distinct:
  assumes "dense sps"
  shows "distinct (map zIndex sps)"
proof -
  have "distinct (map int [0..<length sps])" by (simp add: distinct_map)
  moreover have "mset (map zIndex sps) = mset (map int [0..<length sps])"
    using assms by (simp add: dense_def)
  ultimately show ?thesis by (metis mset_eq_imp_distinct_iff)
qed

lemma sorted_position:
  assumes ids: "distinct (map spriteId sps)" and zs: "distinct (map zIndex sps)"
    and f: "findRef (\<lambda>s. spriteId s = i) sps = Some k"
  shows "\<exists>p<length sps. sortedRefs sps ! p = k
           \<and> findIndex (\<lambda>r. spriteId (sps ! r) = i) (sortedRefs sps) = int p
           \<and> (\<forall>q<length sps.
                 (q < p \<longrightarrow> zIndex (sps ! (sortedRefs sps ! q)) < zIndex (sps ! k))
                 \<and> (p < q \<longrightarrow> zIndex (sps ! k) < zIndex (sps ! (sortedRefs sps ! q))))"
proof -
  let ?S = "sortedRefs sps"
  let ?n = "length sps"
  let ?g = "map (\<lambda>r. zIndex (sps ! r)) ?S"
  have k: "k < ?n" and ki: "spriteId (sps ! k) = i" using f by (simp_all add: findRef_Some_iff)
  have uniq: "r = k" if "r < ?n" "spriteId (sps ! r) = i" for r
  proof -
    have "(map spriteId sps ! r = map spriteId sps ! k) = (r = k)"
      using ids that k by (intro nth_eq_iff_index_eq) simp_all
    then show ?thesis using that k ki by simp
  qed
  have inj: "r = r'" if "r < ?n" "r' < ?n" "zIndex (sps ! r) = zIndex (sps ! r')" for r r'
  proof -
    have "(map zIndex sps ! r = map zIndex sps ! r') = (r = r')"
      using zs that by (intro nth_eq_iff_index_eq) simp_all
    then show ?thesis using that by simp
  qed
  have lenS: "length ?S = ?n" by (rule sortedRefs_props)
  have inS: "?S ! q < ?n" if "q < ?n" for q
  proof -
    have "?S ! q \<in> set ?S" using that lenS by simp
    then show ?thesis by (simp add: sortedRefs_props)
  qed
  obtain p where p: "p < ?n" "?S ! p = k" using rank_exists[OF k] by blast
  have other: "?S ! q \<noteq> k" if "q < ?n" "q \<noteq> p" for q
  proof -
    have "(?S ! q = ?S ! p) = (q = p)"
      using that p lenS sortedRefs_props(2)[of sps] by (intro nth_eq_iff_index_eq) simp_all
    then show ?thesis using that p by simp
  qed
  have "find (\<lambda>j. spriteId (sps ! (?S ! j)) = i) [0..<length ?S] = Some p"
    unfolding find_Some_iff
  proof (intro exI[of _ p] conjI allI impI)
    show "p < length [0..<length ?S]" using p lenS by simp
    show "spriteId (sps ! (?S ! ([0..<length ?S] ! p))) = i" using p lenS ki by simp
    show "p = [0..<length ?S] ! p" using p lenS by simp
  next
    fix j assume j: "j < p"
    then have jn: "j < ?n" using p by simp
    then have "?S ! j \<noteq> k" using other j by simp
    then have "spriteId (sps ! (?S ! j)) \<noteq> i" using uniq[OF inS[OF jn]] by blast
    then show "\<not> spriteId (sps ! (?S ! ([0..<length ?S] ! j))) = i" using jn lenS by simp
  qed
  then have fi: "findIndex (\<lambda>r. spriteId (sps ! r) = i) ?S = int p"
    by (simp add: findIndex_def)
  have srt: "sorted ?g" by (rule sortedRefs_props)
  have ord: "(q < p \<longrightarrow> zIndex (sps ! (?S ! q)) < zIndex (sps ! k))
             \<and> (p < q \<longrightarrow> zIndex (sps ! k) < zIndex (sps ! (?S ! q)))" if q: "q < ?n" for q
  proof (intro conjI impI)
    assume qp: "q < p"
    have "?g ! q \<le> ?g ! p" using srt qp p lenS by (intro sorted_nth_mono) simp_all
    then have "zIndex (sps ! (?S ! q)) \<le> zIndex (sps ! k)" using q p lenS by simp
    moreover have "zIndex (sps ! (?S ! q)) \<noteq> zIndex (sps ! k)"
      using inj[OF inS[OF q] k] other[OF q] qp by blast
    ultimately show "zIndex (sps ! (?S ! q)) < zIndex (sps ! k)" by simp
  next
    assume pq: "p < q"
    have "?g ! p \<le> ?g ! q" using srt pq q lenS by (intro sorted_nth_mono) simp_all
    then have "zIndex (sps ! k) \<le> zIndex (sps ! (?S ! q))" using q p lenS by simp
    moreover have "zIndex (sps ! (?S ! q)) \<noteq> zIndex (sps ! k)"
      using inj[OF inS[OF q] k] other[OF q] pq by blast
    ultimately show "zIndex (sps ! k) < zIndex (sps ! (?S ! q))" by simp
  qed
  from p fi ord show ?thesis by blast
qed

lemma moveLayerUp_next:
  assumes ids: "distinct (map spriteId (sprites (state m)))"
    and zs: "distinct (map zIndex (sprites (state m)))"
    and f: "findRef (\<lambda>s. spriteId s = i) (sprites (state m)) = Some k"
  shows "(\<forall>j<length (sprites (state m)).
            zIndex (sprites (state m) ! j) \<le> zIndex (sprites (state m) ! k))
         \<Longrightarrow> moveLayerUp api i m = m"
    and "b < length (sprites (state m))
         \<Longrightarrow> zIndex (sprites (state m) ! k) < zIndex (sprites (state m) ! b)
         \<Longrightarrow> (\<forall>j<length (sprites (state m)).
                zIndex (sprites (state m) ! k) < zIndex (sprites (state m) ! j)
                \<longrightarrow> zIndex (sprites (state m) ! b) \<le> zIndex (sprites (state m) ! j))
         \<Longrightarrow> sprites (state (moveLayerUp api i m)) = exchanged k b (sprites (state m))"
proof -
  let ?sps = "sprites (state m)"
  let ?S = "sortedRefs ?sps"
  let ?n = "length ?sps"
  have k: "k < ?n" using f by (simp add: findRef_Some_iff)
  have lenS: "length ?S = ?n" by (rule sortedRefs_props)
  from sorted_position[OF ids zs f]
  obtain p where p: "p < ?n" "?S ! p = k"
    and fi: "findIndex (\<lambda>r. spriteId (?sps ! r) = i) ?S = int p"
    and ord: "\<forall>q<?n. (q < p \<longrightarrow> zIndex (?sps ! (?S ! q)) < zIndex (?sps ! k))
                 \<and> (p < q \<longrightarrow> zIndex (?sps ! k) < zIndex (?sps ! (?S ! q)))"
    by blast
  have inS: "?S ! q < ?n" if "q < ?n" for q
  proof -
    have "?S ! q \<in> set ?S" using that lenS by simp
    then show ?thesis by (simp add: sortedRefs_props)
  qed
  show "moveLayerUp api i m = m"
    if top: "\<forall>j<?n. zIndex (?sps ! j) \<le> zIndex (?sps ! k)"
  proof -
    have "\<not> Suc p < ?n"
    proof
      assume s: "Suc p < ?n"
      then have "zIndex (?sps ! k) < zIndex (?sps ! (?S ! Suc p))" using ord by simp
      moreover have "zIndex (?sps ! (?S ! Suc p)) \<le> zIndex (?sps ! k)"
        using top inS[OF s] by blast
      ultimately show False by simp
    qed
    then have "\<not> int p < int (length ?S) - 1" using lenS by linarith
    then show ?thesis using f fi by (simp add: moveLayerUp_def Let_def)
  qed
  show "sprites (state (moveLayerUp api i m)) = exchanged k b ?sps"
    if b: "b < ?n" and above: "zIndex (?sps ! k) < zIndex (?sps ! b)"
      and least: "\<forall>j<?n. zIndex (?sps ! k) < zIndex (?sps ! j)
                    \<longrightarrow> zIndex (?sps ! b) \<le> zIndex (?sps ! j)"
  proof -
    obtain q where q: "q < ?n" "?S ! q = b" using rank_exists[OF b] by blast
    have pq: "p < q"
    proof (rule ccontr)
      assume "\<not> p < q"
      then have "q < p \<or> q = p" by linarith
      then show False
      proof
        assume "q < p"
        then have "zIndex (?sps ! b) < zIndex (?sps ! k)" using ord q by blast
        then show False using above by simp
      next
        assume "q = p"
        then show False using p q above by simp
      qed
    qed
    then have s: "Suc p < ?n" using q by simp
    let ?nxt = "?S ! Suc p"
    have nxt: "?nxt < ?n" by (rule inS[OF s])
    have "zIndex (?sps ! k) < zIndex (?sps ! ?nxt)" using ord s by simp
    then have le1: "zIndex (?sps ! b) \<le> zIndex (?sps ! ?nxt)" using least nxt by blast
    have "map (\<lambda>r. zIndex (?sps ! r)) ?S ! Suc p \<le> map (\<lambda>r. zIndex (?sps ! r)) ?S ! q"
      using pq q lenS sortedRefs_props(5)[of ?sps] by (intro sorted_nth_mono) simp_all
    then have le2: "zIndex (?sps ! ?nxt) \<le> zIndex (?sps ! b)" using s q lenS by simp
    have "(map zIndex ?sps ! ?nxt = map zIndex ?sps ! b) = (?nxt = b)"
      using zs nxt b by (intro nth_eq_iff_index_eq) simp_all
    then have nb: "?nxt = b" using le1 le2 nxt b by simp
    have cond: "int p < int (length ?S) - 1" using s lenS by linarith
    have idx: "nat (int p + 1) = Suc p" by simp
    have "sprites (state (moveLayerUp api i m))
          = (?sps[b := (?sps ! b)\<lparr>zIndex := zIndex (?sps ! k)\<rparr>])
              [k := (?sps[b := (?sps ! b)\<lparr>zIndex := zIndex (?sps ! k)\<rparr>] ! k)
                      \<lparr>zIndex := zIndex (?sps ! b)\<rparr>]"
      using f fi cond by (simp add: moveLayerUp_def Let_def state_simps idx nb)
    also have "\<dots> = exchanged k b ?sps" by (rule code_exchange[OF b k])
    finally show ?thesis .
  qed
qed

lemma moveLayerDown_prev:
  assumes ids: "distinct (map spriteId (sprites (state m)))"
    and zs: "distinct (map zIndex (sprites (state m)))"
    and f: "findRef (\<lambda>s. spriteId s = i) (sprites (state m)) = Some k"
  shows "(\<forall>j<length (sprites (state m)).
            zIndex (sprites (state m) ! k) \<le> zIndex (sprites (state m) ! j))
         \<Longrightarrow> moveLayerDown api i m = m"
    and "b < length (sprites (state m))
         \<Longrightarrow> zIndex (sprites (state m) ! b) < zIndex (sprites (state m) ! k)
         \<Longrightarrow> (\<forall>j<length (sprites (state m)).
                zIndex (sprites (state m) ! j) < zIndex (sprites (state m) ! k)
                \<longrightarrow> zIndex (sprites (state m) ! j) \<le> zIndex (sprites (state m) ! b))
         \<Longrightarrow> sprites (state (moveLayerDown api i m)) = exchanged k b (sprites (state m))"
proof -
  let ?sps = "sprites (state m)"
  let ?S = "sortedRefs ?sps"
  let ?n = "length ?sps"
  have k: "k < ?n" using f by (simp add: findRef_Some_iff)
  have lenS: "length ?S = ?n" by (rule sortedRefs_props)
  from sorted_position[OF ids zs f]
  obtain p where p: "p < ?n" "?S ! p = k"
    and fi: "findIndex (\<lambda>r. spriteId (?sps ! r) = i) ?S = int p"
    and ord: "\<forall>q<?n. (q < p \<longrightarrow> zIndex (?sps ! (?S ! q)) < zIndex (?sps ! k))
                 \<and> (p < q \<longrightarrow> zIndex (?sps ! k) < zIndex (?sps ! (?S ! q)))"
    by blast
  have inS: "?S ! q < ?n" if "q < ?n" for q
  proof -
    have "?S ! q \<in> set ?S" using that lenS by simp
    then show ?thesis by (simp add: sortedRefs_props)
  qed
  show "moveLayerDown api i m = m"
    if bottom: "\<forall>j<?n. zIndex (?sps ! k) \<le> zIndex (?sps ! j)"
  proof -
    have "p = 0"
    proof (rule ccontr)
      assume "p \<noteq> 0"
      then have z: "0 < p" "0 < ?n" using p by auto
      then have "zIndex (?sps ! (?S ! 0)) < zIndex (?sps ! k)" using ord by blast
      moreover have "zIndex (?sps ! k) \<le> zIndex (?sps ! (?S ! 0))"
        using bottom inS[OF z(2)] by blast
      ultimately show False by simp
    qed
    then have "\<not> int p > 0" by simp
    then show ?thesis using f fi by (simp add: moveLayerDown_def Let_def)
  qed
  show "sprites (state (moveLayerDown api i m)) = exchanged k b ?sps"
    if b: "b < ?n" and below: "zIndex (?sps ! b) < zIndex (?sps ! k)"
      and greatest: "\<forall>j<?n. zIndex (?sps ! j) < zIndex (?sps ! k)
                    \<longrightarrow> zIndex (?sps ! j) \<le> zIndex (?sps ! b)"
  proof -
    obtain q where q: "q < ?n" "?S ! q = b" using rank_exists[OF b] by blast
    have qp: "q < p"
    proof (rule ccontr)
      assume "\<not> q < p"
      then have "p < q \<or> q = p" by linarith
      then show False
      proof
        assume "p < q"
        then have "zIndex (?sps ! k) < zIndex (?sps ! b)" using ord q by blast
        then show False using below by simp
      next
        assume "q = p"
        then show False using p q below by simp
      qed
    qed
    then obtain p' where p': "p = Suc p'" by (cases p) simp_all
    have s: "p' < ?n" "p' < p" "q \<le> p'" using p p' qp by simp_all
    let ?prev = "?S ! p'"
    have prev: "?prev < ?n" by (rule inS[OF s(1)])
    have "zIndex (?sps ! ?prev) < zIndex (?sps ! k)" using ord s by blast
    then have le1: "zIndex (?sps ! ?prev) \<le> zIndex (?sps ! b)" using greatest prev by blast
    have "map (\<lambda>r. zIndex (?sps ! r)) ?S ! q \<le> map (\<lambda>r. zIndex (?sps ! r)) ?S ! p'"
      using s lenS sortedRefs_props(5)[of ?sps] by (intro sorted_nth_mono) simp_all
    then have le2: "zIndex (?sps ! b) \<le> zIndex (?sps ! ?prev)" using s q lenS by simp
    have "(map zIndex ?sps ! ?prev = map zIndex ?sps ! b) = (?prev = b)"
      using zs prev b by (intro nth_eq_iff_index_eq) simp_all
    then have pb: "?prev = b" using le1 le2 prev b by simp
    have cond: "int p > 0" using p' by simp
    have idx: "nat (int p - 1) = p'" using p' by simp
    have "sprites (state (moveLayerDown api i m))
          = (?sps[b := (?sps ! b)\<lparr>zIndex := zIndex (?sps ! k)\<rparr>])
              [k := (?sps[b := (?sps ! b)\<lparr>zIndex := zIndex (?sps ! k)\<rparr>] ! k)
                      \<lparr>zIndex := zIndex (?sps ! b)\<rparr>]"
      using f fi cond by (simp add: moveLayerDown_def Let_def state_simps idx pb)
    also have "\<dots> = exchanged k b ?sps" by (rule code_exchange[OF b k])
    finally show ?thesis .
  qed
qed

text \<open>
  Claim C5, as the code has it. \<open>deleteSprite\<close>, and \<open>moveLayerToFront\<close> and
  \<open>moveLayerToBack\<close> when they find the sprite, leave a dense \<open>zIndex\<close> assignment
  whatever the assignment was before; \<open>moveLayerUp\<close>, \<open>moveLayerDown\<close> and
  \<open>addSprite\<close> keep a dense assignment dense. None of them changes anything of an
  existing sprite but its \<open>zIndex\<close>, and each keeps the relative order of the sprites it
  does not move.

  \<^item> After \<open>deleteSprite\<close> the remaining sprites are in their original relative order (and
    there are \<open>N - 1\<close> of them, with \<open>zIndex\<close> values \<open>{0, ..., N - 2}\<close>, when exactly
    one sprite had the id).
  \<^item> After \<open>moveLayerToFront\<close> (\<open>moveLayerToBack\<close>) the other sprites keep their relative
    order, and the found sprite is above (below) all of them as long as the \<open>zIndex\<close>
    values are safe integers, for which the source adds and subtracts one exactly.
  \<^item> \<open>moveLayerUp\<close> and \<open>moveLayerDown\<close> change nothing or exchange the \<open>zIndex\<close> values
    of two sprites. When the ids and the \<open>zIndex\<close> values are distinct (as in a dense
    assignment), the found sprite exchanges its \<open>zIndex\<close> with the sprite next above
    (below) it, and nothing changes when it is the topmost (lowest) one.
  \<^item> \<open>addSprite\<close> appends the new sprite with the \<open>zIndex\<close> \<open>n\<close> and leaves the others
    as they are.
  \<^item> With an id that no sprite has, the four reordering operations change nothing.
\<close>

theorem zorder_compaction:
  "(let sps = sprites (state m);
        remaining = filter (\<lambda>s. spriteId s \<noteq> i) sps;
        deleted = sprites (state (deleteSprite api i m));
        front = sprites (state (moveLayerToFront api i m));
        back = sprites (state (moveLayerToBack api i m));
        up = sprites (state (moveLayerUp api i m));
        down = sprites (state (moveLayerDown api i m));
        new = fst (addSprite api e px py m);
        added = sprites (state (snd (addSprite api e px py m)))
    in dense deleted \<and> onlyZIndexChanged remaining deleted \<and> orderKept {} remaining deleted
       \<and> (length (filter (\<lambda>s. spriteId s = i) sps) = 1 \<longrightarrow> length deleted + 1 = length sps)
       \<and> (\<forall>k. findRef (\<lambda>s. spriteId s = i) sps = Some k \<longrightarrow>
             dense front \<and> onlyZIndexChanged sps front \<and> orderKept {k} sps front
             \<and> (safeIntegers sps \<longrightarrow>
                   (\<forall>j<length sps. j \<noteq> k \<longrightarrow> zIndex (front ! j) < zIndex (front ! k)))
             \<and> dense back \<and> onlyZIndexChanged sps back \<and> orderKept {k} sps back
             \<and> (safeIntegers sps \<longrightarrow>
                   (\<forall>j<length sps. j \<noteq> k \<longrightarrow> zIndex (back ! k) < zIndex (back ! j))))
       \<and> (findRef (\<lambda>s. spriteId s = i) sps = None \<longrightarrow>
             front = sps \<and> back = sps \<and> up = sps \<and> down = sps)
       \<and> (dense sps \<longrightarrow> dense front \<and> dense back \<and> dense up \<and> dense down \<and> dense added)
       \<and> onlyZIndexChanged sps up
       \<and> (\<exists>a b. \<forall>j<length sps. j \<noteq> a \<and> j \<noteq> b \<longrightarrow> up ! j = sps ! j)
       \<and> (up = sps \<or> (\<exists>a<length sps. \<exists>b<length sps. up = exchanged a b sps))
       \<and> onlyZIndexChanged sps down
       \<and> (\<exists>a b. \<forall>j<length sps. j \<noteq> a \<and> j \<noteq> b \<longrightarrow> down ! j = sps ! j)
       \<and> (down = sps \<or> (\<exists>a<length sps. \<exists>b<length sps. down = exchanged a b sps))
       \<and> (dense sps \<longrightarrow> distinct (map zIndex sps))
       \<and> (\<forall>k. distinct (map spriteId sps) \<and> distinct (map zIndex sps)
                \<and> findRef (\<lambda>s. spriteId s = i) sps = Some k \<longrightarrow>
             ((\<forall>j<length sps. zIndex (sps ! j) \<le> zIndex (sps ! k)) \<longrightarrow> up = sps)
             \<and> (\<forall>b<length sps.
                   zIndex (sps ! k) < zIndex (sps ! b)
                   \<and> (\<forall>j<length sps. zIndex (sps ! k) < zIndex (sps ! j)
                          \<longrightarrow> zIndex (sps ! b) \<le> zIndex (sps ! j))
                   \<longrightarrow> up = exchanged k b sps)
             \<and> ((\<forall>j<length sps. zIndex (sps ! k) \<le> zIndex (sps ! j)) \<longrightarrow> down = sps)
             \<and> (\<forall>b<length sps.
                   zIndex (sps ! b) < zIndex (sps ! k)
                   \<and> (\<forall>j<length sps. zIndex (sps ! j) < zIndex (sps ! k)
                          \<longrightarrow> zIndex (sps ! j) \<le> zIndex (sps ! b))
                   \<longrightarrow> down = exchanged k b sps))
       \<and> added = sps @ [new] \<and> zIndex new = int (length sps))"
proof -
  let ?sps = "sprites (state m)"
  let ?remaining = "filter (\<lambda>s. spriteId s \<noteq> i) ?sps"
  let ?deleted = "sprites (state (deleteSprite api i m))"
  let ?toFront = "sprites (state (moveLayerToFront api i m))"
  let ?toBack = "sprites (state (moveLayerToBack api i m))"
  let ?up = "sprites (state (moveLayerUp api i m))"
  let ?down = "sprites (state (moveLayerDown api i m))"
  let ?new = "fst (addSprite api e px py m)"
  let ?added = "sprites (state (snd (addSprite api e px py m)))"
  have del: "dense ?deleted" "onlyZIndexChanged ?remaining ?deleted" "orderKept {} ?remaining ?deleted"
    by (simp_all add: sprites_deleteSprite reindex_dense reindex_onlyZIndexChanged
        reindex_orderKept)
  have del_len: "length (filter (\<lambda>s. spriteId s = i) ?sps) = 1 \<longrightarrow> length ?deleted + 1 = length ?sps"
  proof
    assume "length (filter (\<lambda>s. spriteId s = i) ?sps) = 1"
    from length_filter_one[OF this] show "length ?deleted + 1 = length ?sps"
      by (simp add: sprites_deleteSprite reindex_nth)
  qed
  have found: "dense ?toFront \<and> onlyZIndexChanged ?sps ?toFront \<and> orderKept {k} ?sps ?toFront
             \<and> (safeIntegers ?sps \<longrightarrow>
                   (\<forall>j<length ?sps. j \<noteq> k \<longrightarrow> zIndex (?toFront ! j) < zIndex (?toFront ! k)))
             \<and> dense ?toBack \<and> onlyZIndexChanged ?sps ?toBack \<and> orderKept {k} ?sps ?toBack
             \<and> (safeIntegers ?sps \<longrightarrow>
                   (\<forall>j<length ?sps. j \<noteq> k \<longrightarrow> zIndex (?toBack ! k) < zIndex (?toBack ! j)))"
    if f: "findRef (\<lambda>s. spriteId s = i) ?sps = Some k" for k
  proof -
    have k: "k < length ?sps" using f by (simp add: findRef_Some_iff)
    have top: "\<forall>j<length ?sps. zIndex (?sps ! j) < Max (set (map zIndex ?sps)) + 1"
      using below_Max_plus_one by blast
    have bot: "\<forall>j<length ?sps. Min (set (map zIndex ?sps)) - 1 < zIndex (?sps ! j)"
      using above_Min_minus_one by blast
    show ?thesis
      unfolding sprites_moveLayerToFront[OF f] sprites_moveLayerToBack[OF f]
      using reindex_after_write(1-3)[OF k] reindex_after_write(4)[OF k top]
        reindex_after_write(5)[OF k bot]
      by blast
  qed
  then have found_all: "\<forall>k. findRef (\<lambda>s. spriteId s = i) ?sps = Some k \<longrightarrow>
             dense ?toFront \<and> onlyZIndexChanged ?sps ?toFront \<and> orderKept {k} ?sps ?toFront
             \<and> (safeIntegers ?sps \<longrightarrow>
                   (\<forall>j<length ?sps. j \<noteq> k \<longrightarrow> zIndex (?toFront ! j) < zIndex (?toFront ! k)))
             \<and> dense ?toBack \<and> onlyZIndexChanged ?sps ?toBack \<and> orderKept {k} ?sps ?toBack
             \<and> (safeIntegers ?sps \<longrightarrow>
                   (\<forall>j<length ?sps. j \<noteq> k \<longrightarrow> zIndex (?toBack ! k) < zIndex (?toBack ! j)))"
    by blast
  have unfound: "findRef (\<lambda>s. spriteId s = i) ?sps = None \<longrightarrow>
             ?toFront = ?sps \<and> ?toBack = ?sps \<and> ?up = ?sps \<and> ?down = ?sps"
    by (simp add: sprites_move_unfound)
  have up: "?up = ?sps \<or> (\<exists>a b. a < length ?sps \<and> b < length ?sps \<and> ?up =
        (?sps[a := (?sps ! a)\<lparr>zIndex := zIndex (?sps ! b)\<rparr>])
          [b := (?sps[a := (?sps ! a)\<lparr>zIndex := zIndex (?sps ! b)\<rparr>] ! b)\<lparr>zIndex := zIndex (?sps ! a)\<rparr>])"
    by (rule moveLayerUp_exchange)
  have down: "?down = ?sps \<or> (\<exists>a b. a < length ?sps \<and> b < length ?sps \<and> ?down =
        (?sps[a := (?sps ! a)\<lparr>zIndex := zIndex (?sps ! b)\<rparr>])
          [b := (?sps[a := (?sps ! a)\<lparr>zIndex := zIndex (?sps ! b)\<rparr>] ! b)\<lparr>zIndex := zIndex (?sps ! a)\<rparr>])"
    by (rule moveLayerDown_exchange)
  have same: "onlyZIndexChanged ?sps ?sps" by (simp add: onlyZIndexChanged_def)
  have up_props: "mset (map zIndex ?up) = mset (map zIndex ?sps)" "onlyZIndexChanged ?sps ?up"
    "\<exists>a b. \<forall>j<length ?sps. j \<noteq> a \<and> j \<noteq> b \<longrightarrow> ?up ! j = ?sps ! j"
    using up same exchange_zIndex[of _ ?sps] by (metis, metis, metis)
  have down_props: "mset (map zIndex ?down) = mset (map zIndex ?sps)" "onlyZIndexChanged ?sps ?down"
    "\<exists>a b. \<forall>j<length ?sps. j \<noteq> a \<and> j \<noteq> b \<longrightarrow> ?down ! j = ?sps ! j"
    using down same exchange_zIndex[of _ ?sps] by (metis, metis, metis)
  have upx: "?up = ?sps \<or> (\<exists>a<length ?sps. \<exists>b<length ?sps. ?up = exchanged a b ?sps)"
    using up code_exchange[of _ ?sps] by metis
  have downx: "?down = ?sps \<or> (\<exists>a<length ?sps. \<exists>b<length ?sps. ?down = exchanged a b ?sps)"
    using down code_exchange[of _ ?sps] by metis
  have pres: "dense ?sps \<longrightarrow>
      dense ?toFront \<and> dense ?toBack \<and> dense ?up \<and> dense ?down \<and> dense ?added"
  proof
    assume d: "dense ?sps"
    have "dense ?toFront \<and> dense ?toBack"
    proof (cases "findRef (\<lambda>s. spriteId s = i) ?sps")
      case None
      then show ?thesis using d by (simp add: sprites_move_unfound)
    next
      case (Some k)
      then show ?thesis using found by blast
    qed
    moreover have "dense ?up" using up_props(1) d by (rule dense_cong)
    moreover have "dense ?down" using down_props(1) d by (rule dense_cong)
    moreover have "dense ?added"
      unfolding sprites_addSprite(1) using d sprites_addSprite(2) by (rule dense_append_new)
    ultimately show "dense ?toFront \<and> dense ?toBack \<and> dense ?up \<and> dense ?down \<and> dense ?added"
      by blast
  qed
  have dd: "dense ?sps \<longrightarrow> distinct (map zIndex ?sps)" using dense_distinct by blast
  have nbr: "\<forall>k. distinct (map spriteId ?sps) \<and> distinct (map zIndex ?sps)
                \<and> findRef (\<lambda>s. spriteId s = i) ?sps = Some k \<longrightarrow>
             ((\<forall>j<length ?sps. zIndex (?sps ! j) \<le> zIndex (?sps ! k)) \<longrightarrow> ?up = ?sps)
             \<and> (\<forall>b<length ?sps.
                   zIndex (?sps ! k) < zIndex (?sps ! b)
                   \<and> (\<forall>j<length ?sps. zIndex (?sps ! k) < zIndex (?sps ! j)
                          \<longrightarrow> zIndex (?sps ! b) \<le> zIndex (?sps ! j))
                   \<longrightarrow> ?up = exchanged k b ?sps)
             \<and> ((\<forall>j<length ?sps. zIndex (?sps ! k) \<le> zIndex (?sps ! j)) \<longrightarrow> ?down = ?sps)
             \<and> (\<forall>b<length ?sps.
                   zIndex (?sps ! b) < zIndex (?sps ! k)
                   \<and> (\<forall>j<length ?sps. zIndex (?sps ! j) < zIndex (?sps ! k)
                          \<longrightarrow> zIndex (?sps ! j) \<le> zIndex (?sps ! b))
                   \<longrightarrow> ?down = exchanged k b ?sps)"
  proof (intro allI impI)
    fix k
    assume h: "distinct (map spriteId ?sps) \<and> distinct (map zIndex ?sps)
                \<and> findRef (\<lambda>s. spriteId s = i) ?sps = Some k"
    then have ids: "distinct (map spriteId ?sps)" and zs: "distinct (map zIndex ?sps)"
      and f: "findRef (\<lambda>s. spriteId s = i) ?sps = Some k"
      by simp_all
    note u = moveLayerUp_next[OF ids zs f, where api = api]
    note d = moveLayerDown_prev[OF ids zs f, where api = api]
    have u1: "(\<forall>j<length ?sps. zIndex (?sps ! j) \<le> zIndex (?sps ! k)) \<longrightarrow> ?up = ?sps"
      using u(1) by auto
    have u2: "\<forall>b<length ?sps.
                   zIndex (?sps ! k) < zIndex (?sps ! b)
                   \<and> (\<forall>j<length ?sps. zIndex (?sps ! k) < zIndex (?sps ! j)
                          \<longrightarrow> zIndex (?sps ! b) \<le> zIndex (?sps ! j))
                   \<longrightarrow> ?up = exchanged k b ?sps"
      using u(2) by blast
    have d1: "(\<forall>j<length ?sps. zIndex (?sps ! k) \<le> zIndex (?sps ! j)) \<longrightarrow> ?down = ?sps"
      using d(1) by auto
    have d2: "\<forall>b<length ?sps.
                   zIndex (?sps ! b) < zIndex (?sps ! k)
                   \<and> (\<forall>j<length ?sps. zIndex (?sps ! j) < zIndex (?sps ! k)
                          \<longrightarrow> zIndex (?sps ! j) \<le> zIndex (?sps ! b))
                   \<longrightarrow> ?down = exchanged k b ?sps"
      using d(2) by blast
    from u1 u2 d1 d2
    show "((\<forall>j<length ?sps. zIndex (?sps ! j) \<le> zIndex (?sps ! k)) \<longrightarrow> ?up = ?sps)
             \<and> (\<forall>b<length ?sps.
                   zIndex (?sps ! k) < zIndex (?sps ! b)
                   \<and> (\<forall>j<length ?sps. zIndex (?sps ! k) < zIndex (?sps ! j)
                          \<longrightarrow> zIndex (?sps ! b) \<le> zIndex (?sps ! j))
                   \<longrightarrow> ?up = exchanged k b ?sps)
             \<and> ((\<forall>j<length ?sps. zIndex (?sps ! k) \<le> zIndex (?sps ! j)) \<longrightarrow> ?down = ?sps)
             \<and> (\<forall>b<length ?sps.
                   zIndex (?sps ! b) < zIndex (?sps ! k)
                   \<and> (\<forall>j<length ?sps. zIndex (?sps ! j) < zIndex (?sps ! k)
                          \<longrightarrow> zIndex (?sps ! j) \<le> zIndex (?sps ! b))
                   \<longrightarrow> ?down = exchanged k b ?sps)"
      by (intro conjI)
  qed
  have add1: "?added = ?sps @ [?new]" by (rule sprites_addSprite)
  have add2: "zIndex ?new = int (length ?sps)" by (rule sprites_addSprite)
  show ?thesis
    unfolding Let_def
    by (intro conjI del del_len found_all unfound pres up_props(2) up_props(3) upx
        down_props(2) down_props(3) downx dd nbr add1 add2)
qed

theorem zorder_compaction_witness:
  "dense (sprites (state twoSprites))
   \<and> safeIntegers (sprites (state twoSprites))
   \<and> distinct (map spriteId (sprites (state twoSprites)))
   \<and> distinct (map zIndex (sprites (state twoSprites)))
   \<and> findRef (\<lambda>s. spriteId s = ''sprite-1'') (sprites (state twoSprites)) = Some 0
   \<and> findRef (\<lambda>s. spriteId s = ''sprite-9'') (sprites (state twoSprites)) = None
   \<and> length (filter (\<lambda>s. spriteId s = ''sprite-1'') (sprites (state twoSprites))) = 1
   \<and> dense (sprites (state (deleteSprite emptyApi ''sprite-1'' twoSprites)))
   \<and> length (sprites (state (deleteSprite emptyApi ''sprite-1'' twoSprites))) + 1 = 2
   \<and> dense (sprites (state (moveLayerToFront emptyApi ''sprite-1'' twoSprites)))
   \<and> dense (sprites (state (moveLayerToBack emptyApi ''sprite-1'' twoSprites)))
   \<and> dense (sprites (state (moveLayerUp emptyApi ''sprite-1'' twoSprites)))
   \<and> dense (sprites (state (moveLayerDown emptyApi ''sprite-1'' twoSprites)))
   \<and> zIndex (sprites (state (moveLayerToFront emptyApi ''sprite-1'' twoSprites)) ! 1)
       < zIndex (sprites (state (moveLayerToFront emptyApi ''sprite-1'' twoSprites)) ! 0)
   \<and> sprites (state (moveLayerUp emptyApi ''sprite-1'' twoSprites))
       = [spriteA\<lparr>zIndex := 1\<rparr>, spriteB\<lparr>zIndex := 0\<rparr>]
   \<and> sprites (state (moveLayerDown emptyApi ''sprite-1'' twoSprites)) = [spriteA, spriteB]
   \<and> sprites (state (moveLayerUp emptyApi ''sprite-9'' twoSprites)) = [spriteA, spriteB]
   \<and> sprites (state (snd (addSprite emptyApi ''C'' 0 0 twoSprites)))
       = [spriteA, spriteB, fst (addSprite emptyApi ''C'' 0 0 twoSprites)]
   \<and> zIndex (fst (addSprite emptyApi ''C'' 0 0 twoSprites)) = 2"
proof -
  note t = zorder_compaction [of twoSprites "''sprite-1''" emptyApi "''C''" 0 0, unfolded Let_def]
  note t9 = zorder_compaction [of twoSprites "''sprite-9''" emptyApi "''C''" 0 0, unfolded Let_def]
  have sps: "sprites (state twoSprites) = [spriteA, spriteB]" by (rule twoSprites_facts)
  have len: "length (sprites (state twoSprites)) = 2" by (simp add: sps)
  have d: "dense (sprites (state twoSprites))" by (rule twoSprites_facts)
  have f: "findRef (\<lambda>s. spriteId s = ''sprite-1'') (sprites (state twoSprites)) = Some 0"
    by (rule twoSprites_facts)
  have one: "length (filter (\<lambda>s. spriteId s = ''sprite-1'') (sprites (state twoSprites))) = 1"
    by (rule twoSprites_facts)
  have f9: "findRef (\<lambda>s. spriteId s = ''sprite-9'') (sprites (state twoSprites)) = None"
    by (simp add: sps findRef_def spriteA_def spriteB_def upt_two)
  have safe: "safeIntegers (sprites (state twoSprites))"
    by (simp add: sps safeIntegers_def spriteA_def spriteB_def)
  have ids: "distinct (map spriteId (sprites (state twoSprites)))"
    by (simp add: sps spriteA_def spriteB_def)
  have zs: "distinct (map zIndex (sprites (state twoSprites)))"
    by (simp add: sps spriteA_def spriteB_def)
  have z: "zIndex (sprites (state twoSprites) ! 0) = 0" "zIndex (sprites (state twoSprites) ! 1) = 1"
    by (simp_all add: sps spriteA_def spriteB_def)
  have ex: "exchanged 0 1 (sprites (state twoSprites))
      = [spriteA\<lparr>zIndex := 1\<rparr>, spriteB\<lparr>zIndex := 0\<rparr>]"
    by (simp add: sps exchanged_def spriteA_def spriteB_def)
  note r1 = t[THEN conjunct2]
  note r2 = r1[THEN conjunct2]
  note r3 = r2[THEN conjunct2]
  note r4 = r3[THEN conjunct2]
  note r5 = r4[THEN conjunct2]
  note r6 = r5[THEN conjunct2]
  note r7 = r6[THEN conjunct2]
  note r8 = r7[THEN conjunct2]
  note r9 = r8[THEN conjunct2]
  note r10 = r9[THEN conjunct2]
  note r11 = r10[THEN conjunct2]
  note r12 = r11[THEN conjunct2]
  note r13 = r12[THEN conjunct2]
  note r14 = r13[THEN conjunct2]
  note r15 = r14[THEN conjunct2]
  have c1: "dense (sprites (state (deleteSprite emptyApi ''sprite-1'' twoSprites)))"
    by (rule t[THEN conjunct1])
  have c2: "length (sprites (state (deleteSprite emptyApi ''sprite-1'' twoSprites))) + 1
      = length (sprites (state twoSprites))"
    by (rule r3[THEN conjunct1, THEN mp, OF one])
  have c3: "dense (sprites (state (moveLayerToFront emptyApi ''sprite-1'' twoSprites)))
      \<and> dense (sprites (state (moveLayerToBack emptyApi ''sprite-1'' twoSprites)))
      \<and> dense (sprites (state (moveLayerUp emptyApi ''sprite-1'' twoSprites)))
      \<and> dense (sprites (state (moveLayerDown emptyApi ''sprite-1'' twoSprites)))"
    using r6[THEN conjunct1, THEN mp, OF d] by simp
  note fr = r4[THEN conjunct1, THEN spec, THEN mp, OF f]
  have "\<forall>j<length (sprites (state twoSprites)). j \<noteq> 0 \<longrightarrow>
      zIndex (sprites (state (moveLayerToFront emptyApi ''sprite-1'' twoSprites)) ! j)
        < zIndex (sprites (state (moveLayerToFront emptyApi ''sprite-1'' twoSprites)) ! 0)"
    by (rule fr[THEN conjunct2, THEN conjunct2, THEN conjunct2, THEN conjunct1, THEN mp, OF safe])
  then have c4: "zIndex (sprites (state (moveLayerToFront emptyApi ''sprite-1'' twoSprites)) ! 1)
        < zIndex (sprites (state (moveLayerToFront emptyApi ''sprite-1'' twoSprites)) ! 0)"
    by (simp add: len)
  note nb = r14[THEN conjunct1, THEN spec, THEN mp, OF conjI[OF ids conjI[OF zs f]]]
  note nb_up = nb[THEN conjunct2, THEN conjunct1, rule_format, of 1]
  note nb_down = nb[THEN conjunct2, THEN conjunct2, THEN conjunct1, rule_format]
  have least: "\<forall>j<length (sprites (state twoSprites)).
      zIndex (sprites (state twoSprites) ! 0) < zIndex (sprites (state twoSprites) ! j)
      \<longrightarrow> zIndex (sprites (state twoSprites) ! 1) \<le> zIndex (sprites (state twoSprites) ! j)"
    by (simp add: len less_Suc_eq numeral_2_eq_2 z sps spriteA_def spriteB_def)
  have bottom: "\<forall>j<length (sprites (state twoSprites)).
      zIndex (sprites (state twoSprites) ! 0) \<le> zIndex (sprites (state twoSprites) ! j)"
    by (simp add: len less_Suc_eq numeral_2_eq_2 sps spriteA_def spriteB_def)
  have c5: "sprites (state (moveLayerUp emptyApi ''sprite-1'' twoSprites))
      = [spriteA\<lparr>zIndex := 1\<rparr>, spriteB\<lparr>zIndex := 0\<rparr>]"
    unfolding ex[symmetric]
  proof (rule nb_up)
    show "1 < length (sprites (state twoSprites))" by (simp add: len)
    show "zIndex (sprites (state twoSprites) ! 0) < zIndex (sprites (state twoSprites) ! 1)
      \<and> (\<forall>j<length (sprites (state twoSprites)).
             zIndex (sprites (state twoSprites) ! 0) < zIndex (sprites (state twoSprites) ! j)
             \<longrightarrow> zIndex (sprites (state twoSprites) ! 1) \<le> zIndex (sprites (state twoSprites) ! j))"
      using least z by simp
  qed
  have c6: "sprites (state (moveLayerDown emptyApi ''sprite-1'' twoSprites)) = [spriteA, spriteB]"
    using nb_down bottom unfolding sps by blast
  have c7: "sprites (state (moveLayerUp emptyApi ''sprite-9'' twoSprites)) = [spriteA, spriteB]"
    using t9[THEN conjunct2, THEN conjunct2, THEN conjunct2, THEN conjunct2, THEN conjunct2,
        THEN conjunct1, THEN mp, OF f9]
    unfolding sps by simp
  have c8: "sprites (state (snd (addSprite emptyApi ''C'' 0 0 twoSprites)))
        = sprites (state twoSprites) @ [fst (addSprite emptyApi ''C'' 0 0 twoSprites)]
      \<and> zIndex (fst (addSprite emptyApi ''C'' 0 0 twoSprites)) = int (length (sprites (state twoSprites)))"
    by (rule r15)
  from d safe ids zs f f9 one c1 c2 c3 c4 c5 c6 c7 c8 show ?thesis
    by (simp add: len sps)
qed

text \<open>
  Density is not an invariant of the reachable managers: importing a full-state document
  installs the \<open>zIndex\<close> values it carries, and \<open>moveLayerUp\<close> then only exchanges
  them.
\<close>

lemma decode_legacy: "decodeState legacyValue = Some legacyState"
  by (simp add: decodeState_def decodeSprite_def legacyValue_def legacyState_def)

lemma texts_differ: "emptyStateText \<noteq> legacyText"
  by (simp add: emptyStateText_def legacyText_def)

lemma legacy_start:
  "snd (loadFromLocalStorage legacyApi (newStateManager None))
     = (newStateManager None)\<lparr>undoStack := [emptyStateText]\<rparr>"
  by (simp add: loadFromLocalStorage_def newStateManager_def Let_def legacyApi_def tableApi_def)

lemma importParsed_object:
  assumes "\<not> isArray v" and "v \<noteq> JNull" and "v \<noteq> JUndefined"
  shows "importParsed api v m =
     (if truthy (getProp v ''sprites'') \<and> isArray (getProp v ''sprites'') then
        (case decodeState v of
           None \<Rightarrow> ImportedUntyped v
         | Some st \<Rightarrow> Imported (notifyListeners (saveSnapshot api (m\<lparr>state := st\<rparr>))))
      else ImportFalse m)"
  using assms by (cases v) (auto simp: importParsed_def split: option.splits)

lemma legacy_import:
  "importJSON legacyApi legacyText (snd (loadFromLocalStorage legacyApi (newStateManager None)))
     = Imported legacyImported"
proof -
  have p: "parseJSON legacyApi legacyText = Some legacyValue"
    by (simp add: legacyApi_def tableApi_def)
  have s: "stringifyState legacyApi legacyState = legacyText"
    by (simp add: legacyApi_def tableApi_def legacyState_def newStateManager_def)
  have g: "getProp legacyValue ''sprites'' \<noteq> JUndefined" "isArray (getProp legacyValue ''sprites'')"
    "truthy (getProp legacyValue ''sprites'')"
    by (simp_all add: legacyValue_def)
  have nv: "\<not> isArray legacyValue" "legacyValue \<noteq> JNull" "legacyValue \<noteq> JUndefined"
    by (simp_all add: legacyValue_def)
  have "importParsed legacyApi legacyValue ((newStateManager None)\<lparr>undoStack := [emptyStateText]\<rparr>)
        = Imported (notifyListeners (saveSnapshot legacyApi
            ((newStateManager None)\<lparr>undoStack := [emptyStateText], state := legacyState\<rparr>)))"
    using nv g by (simp add: importParsed_object decode_legacy)
  also have "\<dots> = Imported legacyImported"
    by (simp add: saveSnapshot_def notifyListeners_def s Let_def texts_differ
        legacyImported_def newStateManager_def)
  finally have "importParsed legacyApi legacyValue
      ((newStateManager None)\<lparr>undoStack := [emptyStateText]\<rparr>) = Imported legacyImported" .
  then show ?thesis by (simp add: importJSON_def p legacy_start)
qed

theorem density_not_invariant:
  "perform legacyApi (OpImportJSON legacyText)
      (snd (loadFromLocalStorage legacyApi (newStateManager None))) = Some legacyImported
   \<and> reachable legacyApi legacyImported
   \<and> map zIndex (sprites (state legacyImported)) = [3, 7]
   \<and> \<not> dense (sprites (state legacyImported))
   \<and> map zIndex (sprites (state (moveLayerUp legacyApi ''sprite-1'' legacyImported))) = [7, 3]
   \<and> \<not> dense (sprites (state (moveLayerUp legacyApi ''sprite-1'' legacyImported)))"
proof -
  have p: "perform legacyApi (OpImportJSON legacyText)
      (snd (loadFromLocalStorage legacyApi (newStateManager None))) = Some legacyImported"
    by (simp add: legacy_import)
  have r: "reachable legacyApi legacyImported"
    using reachable.step[OF reachable.initial p] .
  have z: "map zIndex (sprites (state legacyImported)) = [3, 7]"
    by (simp add: legacyImported_def legacyState_def)
  have nd: "\<not> dense (sprites (state legacyImported))"
    by (simp add: dense_iff_sort legacyImported_def legacyState_def upt_two)
  have f: "findRef (\<lambda>s. spriteId s = ''sprite-1'') (sprites (state legacyImported)) = Some 0"
    by (simp add: findRef_Some_iff legacyImported_def legacyState_def)
  have sr: "sortedRefs (sprites (state legacyImported)) = [0, Suc 0]"
    by (simp add: sortedRefs_def legacyImported_def legacyState_def upt_two)
  have fi: "findIndex (\<lambda>r. spriteId (sprites (state legacyImported) ! r) = ''sprite-1'') [0, Suc 0] = 0"
    by (simp add: findIndex_def legacyImported_def legacyState_def upt_two)
  have up: "map zIndex (sprites (state (moveLayerUp legacyApi ''sprite-1'' legacyImported))) = [7, 3]"
    by (simp add: moveLayerUp_def f sr fi Let_def state_simps)
       (simp add: legacyImported_def legacyState_def)
  have "length (sprites (state (moveLayerUp legacyApi ''sprite-1'' legacyImported))) = 2"
    using arg_cong[OF up, of length] by simp
  with up have "\<not> dense (sprites (state (moveLayerUp legacyApi ''sprite-1'' legacyImported)))"
    by (simp add: dense_iff_sort upt_two)
  with p r z nd up show ?thesis by blast
qed

section \<open>Import: failure leaves the manager unchanged\<close>










section \<open>Export and import: the round trip\<close>























end
